theory Spec2Isabelle
  imports Complex_Main "HOL-Library.AList"
begin

section \<open>JavaScript values and exceptions\<close>

text \<open>
  The services are TypeScript running on Node. Values whose static type is \<open>any\<close> or a
  JSON column are modelled by \<open>jsval\<close>; a JavaScript number is a \<open>real\<close> (no claim
  depends on rounding). A thrown value is either an instance of \<open>Error\<close> with its
  message, or any other value; \<open>errorMessage\<close> is the idiom
  \<^verbatim>\<open>error instanceof Error ? error.message : fallback\<close> used by every catch block.
\<close>

datatype jsval =
    JUndefined
  | JNull
  | JBool bool
  | JNum real
  | JStr string
  | JArr "jsval list"
  | JObj "(string \<times> jsval) list"

datatype thrown = JsError string | JsNonError jsval

definition errorMessage :: "thrown \<Rightarrow> string \<Rightarrow> string" where
  "errorMessage e fallback = (case e of JsError m \<Rightarrow> m | JsNonError v \<Rightarrow> fallback)"

fun truthy :: "jsval \<Rightarrow> bool" where
  "truthy JUndefined = False"
| "truthy JNull = False"
| "truthy (JBool b) = b"
| "truthy (JNum n) = (n \<noteq> 0)"
| "truthy (JStr s) = (s \<noteq> [])"
| "truthy (JArr xs) = True"
| "truthy (JObj kvs) = True"

text \<open>Truthiness of an optional string field (\<open>undefined\<close> and \<open>''\<close> are falsy).\<close>

definition truthyStr :: "string option \<Rightarrow> bool" where
  "truthyStr s = (case s of None \<Rightarrow> False | Some x \<Rightarrow> x \<noteq> [])"

definition optStr :: "string option \<Rightarrow> jsval" where
  "optStr s = (case s of None \<Rightarrow> JUndefined | Some x \<Rightarrow> JStr x)"

text \<open>Decimal rendering of a non-negative integer (\<open>Number.prototype.toString\<close> on an id or index).\<close>

fun string_of_nat :: "nat \<Rightarrow> string" where
  "string_of_nat n =
     (if n < 10 then [char_of (48 + n)]
      else string_of_nat (n div 10) @ [char_of (48 + n mod 10)])"

declare string_of_nat.simps [simp del]

text \<open>
  Object spread \<^verbatim>\<open>{...v}\<close>: the own enumerable properties of \<open>v\<close>; \<open>null\<close>, \<open>undefined\<close>,
  booleans and numbers contribute nothing, arrays and strings contribute their indices.
\<close>

definition objectSpread :: "jsval \<Rightarrow> (string \<times> jsval) list" where
  "objectSpread v =
     (case v of
        JObj kvs \<Rightarrow> kvs
      | JArr xs \<Rightarrow> zip (map string_of_nat [0..<length xs]) xs
      | JStr s \<Rightarrow> zip (map string_of_nat [0..<length s]) (map (\<lambda>c. JStr [c]) s)
      | _ \<Rightarrow> [])"

text \<open>A value written to a JSON column: properties whose value is \<open>undefined\<close> are not serialised.\<close>

definition toJsonObject :: "(string \<times> jsval) list \<Rightarrow> jsval" where
  "toJsonObject kvs = JObj (filter (\<lambda>kv. snd kv \<noteq> JUndefined) kvs)"

section \<open>The persisted state\<close>

text \<open>
  The tables follow the migration (\<open>Payment\<close>, \<open>Order\<close>, \<open>OrderItem\<close>, \<open>Product\<close>); only
  the columns that the payment service reads or writes are kept, and a status is the
  \<open>TEXT\<close> it is in the schema. A table is the list of its rows in scan order. The world
  also records what leaves the process: the shipment-creation calls issued (by order id)
  and the first argument of each console line.
\<close>

record payment =
  p_id :: nat
  p_orderId :: nat
  p_paymentMethod :: string
  p_gateway :: "string option"
  p_amount :: real
  p_currency :: string
  p_status :: string
  p_transactionId :: "string option"
  p_gatewayResponse :: jsval
  p_paidAt :: "nat option"

record order =
  o_id :: nat
  o_orderNumber :: string
  o_status :: string
  o_totalAmount :: real

record orderItem =
  oi_orderId :: nat
  oi_productId :: nat
  oi_quantity :: int

record product =
  pr_id :: nat
  pr_stock :: int

record world =
  payments :: "payment list"
  orders :: "order list"
  orderItems :: "orderItem list"
  products :: "product list"
  shipmentCalls :: "nat list"
  console :: "string list"

definition consoleLine :: "string \<Rightarrow> world \<Rightarrow> world" where
  "consoleLine s w = w\<lparr>console := console w @ [s]\<rparr>"

section \<open>The environment: external collaborators and database failures\<close>

text \<open>
  \<open>verifyRazorpayPayment\<close>, \<open>createRazorpayOrder\<close>, \<open>convertToPaise\<close>, \<open>generateReceiptId\<close>
  (module \<open>@/lib/razorpay\<close>) and \<open>createDelhiveryShipment\<close> (module
  \<open>@/lib/services/delhivery\<close>) are imported by the payment service and are parameters
  here, as are the clock and, for every database call, whether that call throws
  (\<open>dbFault\<close>). The product updates of the stock loop are keyed by the position of the
  item, so that every call of one run has its own key.
\<close>

datatype db_op =
    PaymentFindFirst
  | PaymentFindUnique
  | PaymentCreate
  | PaymentUpdate
  | OrderFindUnique
  | OrderUpdate
  | ProductUpdate nat

datatype shipment_outcome = ShipmentReturned bool | ShipmentThrew thrown

record razorpay_request =
  rq_amount :: real
  rq_currency :: string
  rq_receipt :: string
  rq_notes :: "(string \<times> string) list"

text \<open>
  The result of \<open>createRazorpayOrder\<close>: \<open>{success: true, order}\<close> with the gateway's order
  (its \<open>id\<close> and the whole object), \<open>{success: false, error}\<close>, or an exception.
\<close>

datatype razorpay_result =
    RazorpaySuccess string jsval
  | RazorpayFailure jsval
  | RazorpayThrew thrown

record env =
  dbFault :: "db_op \<Rightarrow> thrown option"
  verifyRazorpayPayment :: "string option \<Rightarrow> string \<Rightarrow> string \<Rightarrow> bool"
  createDelhiveryShipment :: "nat \<Rightarrow> shipment_outcome"
  createRazorpayOrder :: "razorpay_request \<Rightarrow> razorpay_result"
  convertToPaise :: "real \<Rightarrow> real"
  generateReceiptId :: "string \<Rightarrow> string"
  newDate :: nat
  newDateISO :: string

section \<open>The database client\<close>

text \<open>
  A computation reads and writes the world and either returns or throws; what it wrote
  before throwing stays written. The client's calls behave as Prisma documents them:
  \<open>findFirst\<close> and \<open>findUnique\<close> return \<open>null\<close> when no row matches, \<open>update\<close> throws when
  the row does not exist, and one call is one statement: it fails without effect or
  takes effect whole.
\<close>

type_synonym 'a io = "world \<Rightarrow> (thrown + 'a) \<times> world"

definition recordNotFound :: thrown where
  "recordNotFound = JsError ''Record to update not found.''"

fun updateFirst :: "('a \<Rightarrow> bool) \<Rightarrow> ('a \<Rightarrow> 'a) \<Rightarrow> 'a list \<Rightarrow> 'a list" where
  "updateFirst P f [] = []"
| "updateFirst P f (x # xs) = (if P x then f x # xs else x # updateFirst P f xs)"

definition payment_findFirst :: "env \<Rightarrow> (payment \<Rightarrow> bool) \<Rightarrow> payment option io" where
  "payment_findFirst env wh w =
     (case dbFault env PaymentFindFirst of
        Some e \<Rightarrow> (Inl e, w)
      | None \<Rightarrow> (Inr (find wh (payments w)), w))"

definition payment_findUnique :: "env \<Rightarrow> nat \<Rightarrow> payment option io" where
  "payment_findUnique env i w =
     (case dbFault env PaymentFindUnique of
        Some e \<Rightarrow> (Inl e, w)
      | None \<Rightarrow> (Inr (find (\<lambda>p. p_id p = i) (payments w)), w))"

definition payment_update :: "env \<Rightarrow> nat \<Rightarrow> (payment \<Rightarrow> payment) \<Rightarrow> payment io" where
  "payment_update env i f w =
     (case dbFault env PaymentUpdate of
        Some e \<Rightarrow> (Inl e, w)
      | None \<Rightarrow>
         (case find (\<lambda>p. p_id p = i) (payments w) of
            None \<Rightarrow> (Inl recordNotFound, w)
          | Some p \<Rightarrow>
             (Inr (f p), w\<lparr>payments := updateFirst (\<lambda>p. p_id p = i) f (payments w)\<rparr>)))"

text \<open>The id of a new row: the table's \<open>AUTOINCREMENT\<close> key.\<close>

definition nextPaymentId :: "payment list \<Rightarrow> nat" where
  "nextPaymentId ps = Suc (fold max (map p_id ps) 0)"

definition payment_create :: "env \<Rightarrow> (nat \<Rightarrow> payment) \<Rightarrow> payment io" where
  "payment_create env mk w =
     (case dbFault env PaymentCreate of
        Some e \<Rightarrow> (Inl e, w)
      | None \<Rightarrow>
         (let p = mk (nextPaymentId (payments w))
          in (Inr p, w\<lparr>payments := payments w @ [p]\<rparr>)))"

definition order_findUnique :: "env \<Rightarrow> nat \<Rightarrow> order option io" where
  "order_findUnique env i w =
     (case dbFault env OrderFindUnique of
        Some e \<Rightarrow> (Inl e, w)
      | None \<Rightarrow> (Inr (find (\<lambda>r. o_id r = i) (orders w)), w))"

text \<open>
  \<open>order.update\<close> returns the updated row; with \<open>include: {orderItems}\<close> the caller also
  gets the order's items, read after the write.
\<close>

definition itemsOf :: "world \<Rightarrow> nat \<Rightarrow> orderItem list" where
  "itemsOf w i = filter (\<lambda>it. oi_orderId it = i) (orderItems w)"

definition order_update :: "env \<Rightarrow> nat \<Rightarrow> (order \<Rightarrow> order) \<Rightarrow> (order \<times> orderItem list) io" where
  "order_update env i f w =
     (case dbFault env OrderUpdate of
        Some e \<Rightarrow> (Inl e, w)
      | None \<Rightarrow>
         (case find (\<lambda>r. o_id r = i) (orders w) of
            None \<Rightarrow> (Inl recordNotFound, w)
          | Some r \<Rightarrow>
             (Inr (f r, itemsOf w i), w\<lparr>orders := updateFirst (\<lambda>r. o_id r = i) f (orders w)\<rparr>)))"

definition product_update :: "env \<Rightarrow> nat \<Rightarrow> nat \<Rightarrow> (product \<Rightarrow> product) \<Rightarrow> product io" where
  "product_update env k i f w =
     (case dbFault env (ProductUpdate k) of
        Some e \<Rightarrow> (Inl e, w)
      | None \<Rightarrow>
         (case find (\<lambda>p. pr_id p = i) (products w) of
            None \<Rightarrow> (Inl recordNotFound, w)
          | Some p \<Rightarrow>
             (Inr (f p), w\<lparr>products := updateFirst (\<lambda>p. pr_id p = i) f (products w)\<rparr>)))"

section \<open>processPayment\<close>

record ProcessPaymentData =
  pp_orderId :: nat
  pp_paymentMethod :: string
  pp_razorpayOrderId :: "string option"
  pp_razorpayPaymentId :: "string option"
  pp_razorpaySignature :: "string option"
  pp_amount :: real

text \<open>
  The function returns \<open>{success, payment, order, paymentStatus, message}\<close> or
  \<open>{success: false, error}\<close>.
\<close>

datatype process_result =
    ProcessDone bool payment "order \<times> orderItem list" string string
  | ProcessError string

fun pr_success :: "process_result \<Rightarrow> bool" where
  "pr_success (ProcessDone s p ou st m) = s"
| "pr_success (ProcessError e) = False"

text \<open>
  The \<open>where\<close> of the lookup. A filter whose value is \<open>undefined\<close> is no filter, so a call
  without \<open>razorpayOrderId\<close> looks the payment up by \<open>orderId\<close> alone.
\<close>

definition paymentWhere :: "ProcessPaymentData \<Rightarrow> payment \<Rightarrow> bool" where
  "paymentWhere d p =
     (p_orderId p = pp_orderId d \<and>
      (case pp_razorpayOrderId d of None \<Rightarrow> True | Some t \<Rightarrow> p_transactionId p = Some t))"

text \<open>Lines 130 to 145: both statuses start as FAILED and change only after verification.\<close>

definition isValidPayment :: "env \<Rightarrow> ProcessPaymentData \<Rightarrow> bool" where
  "isValidPayment env d =
     (if pp_paymentMethod d = ''razorpay'' \<and> truthyStr (pp_razorpayPaymentId d)
           \<and> truthyStr (pp_razorpaySignature d)
      then (case (pp_razorpayPaymentId d, pp_razorpaySignature d) of
              (Some pid, Some sg) \<Rightarrow> verifyRazorpayPayment env (pp_razorpayOrderId d) pid sg
            | _ \<Rightarrow> False)
      else False)"

definition paymentStatusOf :: "env \<Rightarrow> ProcessPaymentData \<Rightarrow> string" where
  "paymentStatusOf env d = (if isValidPayment env d then ''COMPLETED'' else ''FAILED'')"

definition orderStatusOf :: "env \<Rightarrow> ProcessPaymentData \<Rightarrow> string" where
  "orderStatusOf env d = (if isValidPayment env d then ''CONFIRMED'' else ''FAILED'')"

definition paymentData :: "env \<Rightarrow> ProcessPaymentData \<Rightarrow> payment \<Rightarrow> payment \<Rightarrow> payment" where
  "paymentData env d found row =
     row\<lparr>p_status := paymentStatusOf env d,
         p_paidAt := (if paymentStatusOf env d = ''COMPLETED'' then Some (newDate env) else None),
         p_gatewayResponse :=
           toJsonObject
             (AList.update ''verifiedAt'' (JStr (newDateISO env))
               (AList.update ''signature'' (optStr (pp_razorpaySignature d))
                 (AList.update ''paymentId'' (optStr (pp_razorpayPaymentId d))
                   (objectSpread (p_gatewayResponse found)))))\<rparr>"

text \<open>The stock loop: one \<open>product.update\<close> with \<open>decrement\<close> per item, in order.\<close>

fun decrementStock :: "env \<Rightarrow> nat \<Rightarrow> orderItem list \<Rightarrow> unit io" where
  "decrementStock env k [] w = (Inr (), w)"
| "decrementStock env k (item # items) w =
     (case product_update env k (oi_productId item)
             (\<lambda>p. p\<lparr>pr_stock := pr_stock p - oi_quantity item\<rparr>) w of
        (Inl e, w') \<Rightarrow> (Inl e, w')
      | (Inr p, w') \<Rightarrow> decrementStock env (Suc k) items w')"

text \<open>The inner try: the call is issued, and every outcome ends in a console line.\<close>

definition shipmentStep :: "env \<Rightarrow> nat \<Rightarrow> world \<Rightarrow> world" where
  "shipmentStep env i w =
     (let w1 = consoleLine ''Creating Delhivery shipment for order:'' w;
          w2 = w1\<lparr>shipmentCalls := shipmentCalls w1 @ [i]\<rparr>
      in case createDelhiveryShipment env i of
           ShipmentReturned True \<Rightarrow> consoleLine ''Delhivery shipment created successfully:'' w2
         | ShipmentReturned False \<Rightarrow> consoleLine ''Failed to create Delhivery shipment:'' w2
         | ShipmentThrew e \<Rightarrow> consoleLine ''Error creating Delhivery shipment:'' w2)"

definition resultMessage :: "string \<Rightarrow> string" where
  "resultMessage st =
     (if st = ''COMPLETED'' then ''Payment successful! Your order has been confirmed.''
      else ''Payment verification failed. Please try again.'')"

definition processPayment_try :: "env \<Rightarrow> ProcessPaymentData \<Rightarrow> process_result io" where
  "processPayment_try env d w =
     (case payment_findFirst env (paymentWhere d) w of
        (Inl e, w1) \<Rightarrow> (Inl e, w1)
      | (Inr None, w1) \<Rightarrow> (Inr (ProcessError ''Payment record not found''), w1)
      | (Inr (Some found), w1) \<Rightarrow>
         (case payment_update env (p_id found) (paymentData env d found) w1 of
            (Inl e, w2) \<Rightarrow> (Inl e, w2)
          | (Inr updatedPayment, w2) \<Rightarrow>
             (case order_update env (pp_orderId d) (\<lambda>r. r\<lparr>o_status := orderStatusOf env d\<rparr>) w2 of
                (Inl e, w3) \<Rightarrow> (Inl e, w3)
              | (Inr updatedOrder, w3) \<Rightarrow>
                 (let res = ProcessDone (paymentStatusOf env d = ''COMPLETED'') updatedPayment
                              updatedOrder (paymentStatusOf env d)
                              (resultMessage (paymentStatusOf env d))
                  in if paymentStatusOf env d = ''COMPLETED''
                     then (case decrementStock env 0 (snd updatedOrder) w3 of
                             (Inl e, w4) \<Rightarrow> (Inl e, w4)
                           | (Inr u, w4) \<Rightarrow> (Inr res, shipmentStep env (pp_orderId d) w4))
                     else (Inr res, w3)))))"

definition processPayment :: "env \<Rightarrow> ProcessPaymentData \<Rightarrow> world \<Rightarrow> process_result \<times> world" where
  "processPayment env d w =
     (case processPayment_try env d w of
        (Inr r, w') \<Rightarrow> (r, w')
      | (Inl e, w') \<Rightarrow>
         (ProcessError (errorMessage e ''Failed to process payment''),
          consoleLine ''Error processing payment:'' w'))"

section \<open>getPaymentDetails\<close>

text \<open>
  The first payment of the order, or \<open>null\<close>. The included order, user and items are
  read-only joins and are left out of the result.
\<close>

datatype details_result = DetailsDone "payment option" | DetailsError string

definition getPaymentDetails :: "env \<Rightarrow> nat \<Rightarrow> world \<Rightarrow> details_result \<times> world" where
  "getPaymentDetails env orderId w =
     (case payment_findFirst env (\<lambda>p. p_orderId p = orderId) w of
        (Inr found, w') \<Rightarrow> (DetailsDone found, w')
      | (Inl e, w') \<Rightarrow>
         (DetailsError (errorMessage e ''Failed to get payment details''),
          consoleLine ''Error getting payment details:'' w'))"

section \<open>refundPayment\<close>

datatype refund_result = RefundDone string | RefundError string

text \<open>\<^verbatim>\<open>amount || payment.amount\<close>: an absent or zero amount refunds the whole payment.\<close>

definition refundAmount :: "real option \<Rightarrow> payment \<Rightarrow> real" where
  "refundAmount amount found =
     (case amount of None \<Rightarrow> p_amount found
      | Some a \<Rightarrow> if a \<noteq> 0 then a else p_amount found)"

definition refundData :: "env \<Rightarrow> real option \<Rightarrow> payment \<Rightarrow> payment \<Rightarrow> payment" where
  "refundData env amount found row =
     row\<lparr>p_status := ''REFUNDED'',
         p_gatewayResponse :=
           toJsonObject
             (AList.update ''refundAmount'' (JNum (refundAmount amount found))
               (AList.update ''refundedAt'' (JStr (newDateISO env))
                 (objectSpread (p_gatewayResponse found))))\<rparr>"

definition refundPayment_try :: "env \<Rightarrow> nat \<Rightarrow> real option \<Rightarrow> refund_result io" where
  "refundPayment_try env paymentId amount w =
     (case payment_findUnique env paymentId w of
        (Inl e, w1) \<Rightarrow> (Inl e, w1)
      | (Inr None, w1) \<Rightarrow> (Inr (RefundError ''Payment not found''), w1)
      | (Inr (Some found), w1) \<Rightarrow>
         if p_status found \<noteq> ''COMPLETED''
         then (Inr (RefundError ''Payment is not completed''), w1)
         else
           (case payment_update env paymentId (refundData env amount found) w1 of
              (Inl e, w2) \<Rightarrow> (Inl e, w2)
            | (Inr updatedPayment, w2) \<Rightarrow>
               (case order_update env (p_orderId found) (\<lambda>r. r\<lparr>o_status := ''REFUNDED''\<rparr>) w2 of
                  (Inl e, w3) \<Rightarrow> (Inl e, w3)
                | (Inr updatedOrder, w3) \<Rightarrow>
                   (Inr (RefundDone ''Payment refunded successfully''), w3))))"

definition refundPayment :: "env \<Rightarrow> nat \<Rightarrow> real option \<Rightarrow> world \<Rightarrow> refund_result \<times> world" where
  "refundPayment env paymentId amount w =
     (case refundPayment_try env paymentId amount w of
        (Inr r, w') \<Rightarrow> (r, w')
      | (Inl e, w') \<Rightarrow>
         (RefundError (errorMessage e ''Failed to refund payment''),
          consoleLine ''Error refunding payment:'' w'))"

section \<open>createPaymentOrder\<close>

record CreatePaymentOrderData =
  cp_orderId :: nat
  cp_amount :: real
  cp_currency :: string
  cp_customerEmail :: string
  cp_customerName :: string
  cp_customerPhone :: "string option"

text \<open>
  The function returns \<open>{success: true, razorpayOrder, payment, order: {id, orderNumber, total}}\<close>
  or \<open>{success: false, error}\<close>, where the error is the gateway's own or a message.
\<close>

datatype create_result =
    CreateDone jsval payment nat string real
  | CreateError jsval

definition newPayment :: "CreatePaymentOrderData \<Rightarrow> order \<Rightarrow> string \<Rightarrow> jsval \<Rightarrow> nat \<Rightarrow> payment" where
  "newPayment d ord rid rorder i =
     \<lparr>p_id = i, p_orderId = o_id ord, p_paymentMethod = ''CREDIT_CARD'',
      p_gateway = Some ''razorpay'', p_amount = cp_amount d, p_currency = cp_currency d,
      p_status = ''PENDING'', p_transactionId = Some rid, p_gatewayResponse = rorder,
      p_paidAt = None\<rparr>"

definition razorpayRequest :: "env \<Rightarrow> CreatePaymentOrderData \<Rightarrow> order \<Rightarrow> razorpay_request" where
  "razorpayRequest env d ord =
     \<lparr>rq_amount = convertToPaise env (cp_amount d),
      rq_currency = cp_currency d,
      rq_receipt = generateReceiptId env (o_orderNumber ord),
      rq_notes = [(''orderId'', string_of_nat (o_id ord)),
                  (''orderNumber'', o_orderNumber ord),
                  (''customerEmail'', cp_customerEmail d),
                  (''customerName'', cp_customerName d)]\<rparr>"

definition createPaymentOrder_try :: "env \<Rightarrow> CreatePaymentOrderData \<Rightarrow> create_result io" where
  "createPaymentOrder_try env d w =
     (case order_findUnique env (cp_orderId d) w of
        (Inl e, w1) \<Rightarrow> (Inl e, w1)
      | (Inr None, w1) \<Rightarrow> (Inr (CreateError (JStr ''Order not found'')), w1)
      | (Inr (Some ord), w1) \<Rightarrow>
         (case createRazorpayOrder env (razorpayRequest env d ord) of
            RazorpayThrew e \<Rightarrow> (Inl e, w1)
          | RazorpayFailure err \<Rightarrow> (Inr (CreateError err), w1)
          | RazorpaySuccess rid rorder \<Rightarrow>
             (case payment_create env (newPayment d ord rid rorder) w1 of
                (Inl e, w2) \<Rightarrow> (Inl e, w2)
              | (Inr created, w2) \<Rightarrow>
                 (Inr (CreateDone rorder created (o_id ord) (o_orderNumber ord) (o_totalAmount ord)),
                  w2))))"

definition createPaymentOrder :: "env \<Rightarrow> CreatePaymentOrderData \<Rightarrow> world \<Rightarrow> create_result \<times> world" where
  "createPaymentOrder env d w =
     (case createPaymentOrder_try env d w of
        (Inr r, w') \<Rightarrow> (r, w')
      | (Inl e, w') \<Rightarrow>
         (CreateError (JStr (errorMessage e ''Failed to create payment order'')),
          consoleLine ''Error creating payment order:'' w'))"

section \<open>The courier client (lib/delhivery.ts)\<close>


























section \<open>Vocabulary of the properties\<close>

definition paymentById :: "world \<Rightarrow> nat \<Rightarrow> payment option" where
  "paymentById w i = find (\<lambda>p. p_id p = i) (payments w)"

definition orderById :: "world \<Rightarrow> nat \<Rightarrow> order option" where
  "orderById w i = find (\<lambda>r. o_id r = i) (orders w)"

definition stockOf :: "world \<Rightarrow> nat \<Rightarrow> int option" where
  "stockOf w i = map_option pr_stock (find (\<lambda>p. pr_id p = i) (products w))"

text \<open>
  The foreign keys of the migration that the service relies on: a payment's order and an
  order item's product exist (\<open>ON DELETE RESTRICT\<close>).
\<close>

definition foreignKeys :: "world \<Rightarrow> bool" where
  "foreignKeys w =
     ((\<forall>p \<in> set (payments w). \<exists>r \<in> set (orders w). o_id r = p_orderId p) \<and>
      (\<forall>it \<in> set (orderItems w). \<exists>p \<in> set (products w). pr_id p = oi_productId it))"

definition noDbFault :: "env \<Rightarrow> bool" where
  "noDbFault env = (\<forall>op. dbFault env op = None)"

text \<open>The quantity of one product ordered by a list of items.\<close>

definition quantityOf :: "orderItem list \<Rightarrow> nat \<Rightarrow> int" where
  "quantityOf items i = sum_list (map oi_quantity (filter (\<lambda>it. oi_productId it = i) items))"

definition decrementOne :: "orderItem \<Rightarrow> product list \<Rightarrow> product list" where
  "decrementOne item ps =
     updateFirst (\<lambda>p. pr_id p = oi_productId item)
       (\<lambda>p. p\<lparr>pr_stock := pr_stock p - oi_quantity item\<rparr>) ps"

definition decrementAll :: "orderItem list \<Rightarrow> product list \<Rightarrow> product list" where
  "decrementAll items ps = foldl (\<lambda>acc item. decrementOne item acc) ps items"

text \<open>The request carries what the verification needs and the gateway accepts it.\<close>

definition verifiedRazorpay :: "env \<Rightarrow> ProcessPaymentData \<Rightarrow> bool" where
  "verifiedRazorpay env d =
     (pp_paymentMethod d = ''razorpay'' \<and>
      (\<exists>pid sg. pp_razorpayPaymentId d = Some pid \<and> pid \<noteq> [] \<and>
                pp_razorpaySignature d = Some sg \<and> sg \<noteq> [] \<and>
                verifyRazorpayPayment env (pp_razorpayOrderId d) pid sg))"

definition paidAtIffCompleted :: "world \<Rightarrow> bool" where
  "paidAtIffCompleted w =
     (\<forall>p \<in> set (payments w). (p_paidAt p \<noteq> None) = (p_status p = ''COMPLETED''))"

definition paidAtIffPaid :: "world \<Rightarrow> bool" where
  "paidAtIffPaid w =
     (\<forall>p \<in> set (payments w).
        (p_paidAt p \<noteq> None) = (p_status p = ''COMPLETED'' \<or> p_status p = ''REFUNDED''))"

text \<open>A record that has the pair of the request: its order id and its gateway order id.\<close>

definition pairMatches :: "ProcessPaymentData \<Rightarrow> payment \<Rightarrow> bool" where
  "pairMatches d p = (p_orderId p = pp_orderId d \<and> p_transactionId p = pp_razorpayOrderId d)"

text \<open>A non-empty error message: a string with at least one character.\<close>

definition nonEmptyMessage :: "jsval \<Rightarrow> bool" where
  "nonEmptyMessage v = (case v of JStr s \<Rightarrow> s \<noteq> [] | _ \<Rightarrow> False)"


text \<open>The world after the two status writes of \<open>processPayment\<close>.\<close>

definition afterWrites :: "env \<Rightarrow> ProcessPaymentData \<Rightarrow> payment \<Rightarrow> world \<Rightarrow> world" where
  "afterWrites env d found w =
     w\<lparr>payments := updateFirst (\<lambda>p. p_id p = p_id found) (paymentData env d found) (payments w),
       orders := updateFirst (\<lambda>r. o_id r = pp_orderId d)
                   (\<lambda>r. r\<lparr>o_status := orderStatusOf env d\<rparr>) (orders w)\<rparr>"

section \<open>A concrete shop\<close>

definition demoPayment :: payment where
  "demoPayment =
     \<lparr>p_id = 1, p_orderId = 1001, p_paymentMethod = ''CREDIT_CARD'',
      p_gateway = Some ''razorpay'', p_amount = 2000, p_currency = ''INR'',
      p_status = ''PENDING'', p_transactionId = Some ''order_A'',
      p_gatewayResponse = JObj [(''id'', JStr ''order_A'')], p_paidAt = None\<rparr>"

definition demoOrder :: order where
  "demoOrder = \<lparr>o_id = 1001, o_orderNumber = ''1001'', o_status = ''PENDING'', o_totalAmount = 2000\<rparr>"

definition demoItem :: orderItem where
  "demoItem = \<lparr>oi_orderId = 1001, oi_productId = 7, oi_quantity = 3\<rparr>"

definition demoProduct :: product where
  "demoProduct = \<lparr>pr_id = 7, pr_stock = 10\<rparr>"

definition demoWorld :: world where
  "demoWorld =
     \<lparr>payments = [demoPayment], orders = [demoOrder], orderItems = [demoItem],
      products = [demoProduct], shipmentCalls = [], console = []\<rparr>"

text \<open>The same shop after the payment was completed, and after it was refunded.\<close>

definition paidWorld :: world where
  "paidWorld =
     demoWorld\<lparr>payments := [demoPayment\<lparr>p_status := ''COMPLETED'', p_paidAt := Some 1700000000\<rparr>],
               orders := [demoOrder\<lparr>o_status := ''CONFIRMED''\<rparr>]\<rparr>"

definition refundedWorld :: world where
  "refundedWorld =
     demoWorld\<lparr>payments := [demoPayment\<lparr>p_status := ''REFUNDED'', p_paidAt := Some 1700000000\<rparr>],
               orders := [demoOrder\<lparr>o_status := ''REFUNDED''\<rparr>]\<rparr>"

definition demoData :: ProcessPaymentData where
  "demoData =
     \<lparr>pp_orderId = 1001, pp_paymentMethod = ''razorpay'', pp_razorpayOrderId = Some ''order_A'',
      pp_razorpayPaymentId = Some ''pay_1'', pp_razorpaySignature = Some ''good'',
      pp_amount = 2000\<rparr>"

text \<open>A call for another payment method: it carries none of the gateway's fields.\<close>

definition codData :: ProcessPaymentData where
  "codData =
     \<lparr>pp_orderId = 1001, pp_paymentMethod = ''cod'', pp_razorpayOrderId = None,
      pp_razorpayPaymentId = None, pp_razorpaySignature = None, pp_amount = 2000\<rparr>"

definition demoEnv :: env where
  "demoEnv =
     \<lparr>dbFault = (\<lambda>op. None),
      verifyRazorpayPayment = (\<lambda>oid pid sg. sg = ''good''),
      createDelhiveryShipment = (\<lambda>i. ShipmentReturned True),
      createRazorpayOrder = (\<lambda>rq. RazorpaySuccess ''order_B'' (JObj [(''id'', JStr ''order_B'')])),
      convertToPaise = (\<lambda>a. a * 100),
      generateReceiptId = (\<lambda>n. ''rcpt_'' @ n),
      newDate = 1700000000,
      newDateISO = ''2023-11-14T22:13:20.000Z''\<rparr>"

definition demoCreate :: CreatePaymentOrderData where
  "demoCreate =
     \<lparr>cp_orderId = 1001, cp_amount = 2000, cp_currency = ''INR'',
      cp_customerEmail = ''a@b.c'', cp_customerName = ''A'', cp_customerPhone = None\<rparr>"



section \<open>Lemmas on the database client\<close>

lemma find_updateFirst:
  "(\<And>x. P x \<Longrightarrow> P (f x)) \<Longrightarrow> find P (updateFirst P f xs) = map_option f (find P xs)"
  by (induction xs) auto

lemma find_updateFirst_other:
  "(\<And>x. P x \<Longrightarrow> \<not> Q x \<and> \<not> Q (f x)) \<Longrightarrow> find Q (updateFirst P f xs) = find Q xs"
  by (induction xs) auto

lemma updateFirst_none:
  "find P xs = None \<Longrightarrow> updateFirst P f xs = xs"
  by (induction xs) (auto split: if_splits)

lemma find_in_set: "find P xs = Some x \<Longrightarrow> x \<in> set xs \<and> P x"
  by (induction xs) (auto split: if_splits)

lemma find_exists: "x \<in> set xs \<Longrightarrow> P x \<Longrightarrow> \<exists>y. find P xs = Some y \<and> P y"
  by (induction xs) auto

lemma set_updateFirst:
  "find P xs = Some x \<Longrightarrow> set (updateFirst P f xs) \<subseteq> insert (f x) (set xs)"
  by (induction xs) (auto split: if_splits)

lemma updateFirst_keeps:
  "y \<in> set xs \<Longrightarrow> \<not> P y \<Longrightarrow> y \<in> set (updateFirst P f xs)"
  by (induction xs) auto

lemma map_updateFirst:
  "(\<And>x. k (f x) = k x) \<Longrightarrow> map k (updateFirst P f xs) = map k xs"
  by (induction xs) auto

lemma payment_update_ok:
  assumes "dbFault env PaymentUpdate = None" and "find (\<lambda>p. p_id p = i) (payments w) = Some row"
  shows "payment_update env i f w =
          (Inr (f row), w\<lparr>payments := updateFirst (\<lambda>p. p_id p = i) f (payments w)\<rparr>)"
  using assms by (simp add: payment_update_def)

lemma order_update_ok:
  assumes "dbFault env OrderUpdate = None" and "find (\<lambda>r. o_id r = i) (orders w) = Some ord"
  shows "order_update env i f w =
          (Inr (f ord, itemsOf w i), w\<lparr>orders := updateFirst (\<lambda>r. o_id r = i) f (orders w)\<rparr>)"
  using assms by (simp add: order_update_def)

lemma order_update_throws:
  assumes "dbFault env OrderUpdate = Some e"
  shows "order_update env i f w = (Inl e, w)"
  using assms by (simp add: order_update_def)

lemma processPayment_try_writes:
  assumes "dbFault env PaymentFindFirst = None"
      and "find (paymentWhere d) (payments w) = Some found"
      and "dbFault env PaymentUpdate = None"
      and "find (\<lambda>p. p_id p = p_id found) (payments w) = Some row"
      and "dbFault env OrderUpdate = None"
      and "find (\<lambda>r. o_id r = pp_orderId d) (orders w) = Some ord"
  shows "processPayment_try env d w =
     (let res = ProcessDone (paymentStatusOf env d = ''COMPLETED'') (paymentData env d found row)
                  (ord\<lparr>o_status := orderStatusOf env d\<rparr>, itemsOf w (pp_orderId d))
                  (paymentStatusOf env d) (resultMessage (paymentStatusOf env d))
      in if paymentStatusOf env d = ''COMPLETED''
         then (case decrementStock env 0 (itemsOf w (pp_orderId d)) (afterWrites env d found w) of
                 (Inl e, w4) \<Rightarrow> (Inl e, w4)
               | (Inr u, w4) \<Rightarrow> (Inr res, shipmentStep env (pp_orderId d) w4))
         else (Inr res, afterWrites env d found w))"
  using assms
  by (simp add: processPayment_try_def payment_findFirst_def payment_update_ok order_update_ok
      afterWrites_def itemsOf_def Let_def)

lemma decrementStock_ok:
  assumes "\<forall>k. dbFault env (ProductUpdate k) = None"
      and "\<forall>it \<in> set items. \<exists>p \<in> set (products w). pr_id p = oi_productId it"
  shows "decrementStock env k items w = (Inr (), w\<lparr>products := decrementAll items (products w)\<rparr>)"
  using assms
proof (induction items arbitrary: k w)
  case Nil
  then show ?case by (simp add: decrementAll_def)
next
  case (Cons item items)
  from Cons.prems(2) obtain p where p: "p \<in> set (products w)" "pr_id p = oi_productId item"
    by auto
  then obtain q where q: "find (\<lambda>p. pr_id p = oi_productId item) (products w) = Some q"
    using find_exists[of p "products w" "\<lambda>p. pr_id p = oi_productId item"] by auto
  let ?w' = "w\<lparr>products := decrementOne item (products w)\<rparr>"
  have step: "product_update env k (oi_productId item)
             (\<lambda>p. p\<lparr>pr_stock := pr_stock p - oi_quantity item\<rparr>) w
           = (Inr (q\<lparr>pr_stock := pr_stock q - oi_quantity item\<rparr>), ?w')"
    using Cons.prems(1) q by (simp add: product_update_def decrementOne_def)
  have ids: "map pr_id (products ?w') = map pr_id (products w)"
    by (simp add: decrementOne_def map_updateFirst)
  have "\<forall>it \<in> set items. \<exists>p \<in> set (products ?w'). pr_id p = oi_productId it"
  proof
    fix it assume "it \<in> set items"
    with Cons.prems(2) obtain p' where "p' \<in> set (products w)" "pr_id p' = oi_productId it"
      by auto
    then have "oi_productId it \<in> set (map pr_id (products w))" by force
    with ids have "oi_productId it \<in> set (map pr_id (products ?w'))" by simp
    then show "\<exists>p \<in> set (products ?w'). pr_id p = oi_productId it" by auto
  qed
  with Cons.IH[of ?w' "Suc k"] Cons.prems(1)
  have "decrementStock env (Suc k) items ?w' = (Inr (), ?w'\<lparr>products := decrementAll items (products ?w')\<rparr>)"
    by simp
  with step show ?case by (simp add: decrementAll_def)
qed

lemma find_decrementOne_other:
  "oi_productId item \<noteq> i \<Longrightarrow>
   find (\<lambda>p. pr_id p = i) (decrementOne item ps) = find (\<lambda>p. pr_id p = i) ps"
  unfolding decrementOne_def by (induction ps) auto

lemma find_decrementOne_same:
  "find (\<lambda>p. pr_id p = oi_productId item) (decrementOne item ps) =
   map_option (\<lambda>p. p\<lparr>pr_stock := pr_stock p - oi_quantity item\<rparr>)
     (find (\<lambda>p. pr_id p = oi_productId item) ps)"
  unfolding decrementOne_def by (induction ps) auto

lemma stock_decrementOne:
  "map_option pr_stock (find (\<lambda>p. pr_id p = i) (decrementOne item ps)) =
   map_option (\<lambda>s. if oi_productId item = i then s - oi_quantity item else s)
     (map_option pr_stock (find (\<lambda>p. pr_id p = i) ps))"
proof (cases "oi_productId item = i")
  case True
  then show ?thesis
    using find_decrementOne_same[of item ps] by (simp add: option.map_comp comp_def)
next
  case False
  then show ?thesis
    by (simp add: find_decrementOne_other option.map_ident)
qed

lemma stock_decrementAll:
  "map_option pr_stock (find (\<lambda>p. pr_id p = i) (decrementAll items ps)) =
   map_option (\<lambda>s. s - quantityOf items i) (map_option pr_stock (find (\<lambda>p. pr_id p = i) ps))"
proof (induction items arbitrary: ps)
  case Nil
  then show ?case by (simp add: decrementAll_def quantityOf_def option.map_ident)
next
  case (Cons item items)
  have "decrementAll (item # items) ps = decrementAll items (decrementOne item ps)"
    by (simp add: decrementAll_def)
  then show ?case
    using Cons.IH[of "decrementOne item ps"]
    by (cases "find (\<lambda>p. pr_id p = i) ps")
       (auto simp: stock_decrementOne quantityOf_def option.map_comp comp_def)
qed

section \<open>Lemmas on processPayment\<close>

lemma isValidPayment_iff: "isValidPayment env d = verifiedRazorpay env d"
  by (auto simp: isValidPayment_def verifiedRazorpay_def truthyStr_def split: option.splits)

lemma found_row:
  assumes "find (paymentWhere d) (payments w) = Some found"
  shows "\<exists>row. find (\<lambda>p. p_id p = p_id found) (payments w) = Some row \<and> p_id row = p_id found"
  using find_in_set[OF assms] find_exists[of found "payments w" "\<lambda>p. p_id p = p_id found"]
  by auto

lemma found_order:
  assumes "foreignKeys w" and "find (paymentWhere d) (payments w) = Some found"
  shows "\<exists>ord. find (\<lambda>r. o_id r = pp_orderId d) (orders w) = Some ord \<and> o_id ord = pp_orderId d"
proof -
  from find_in_set[OF assms(2)] have f: "found \<in> set (payments w)" "p_orderId found = pp_orderId d"
    by (auto simp: paymentWhere_def)
  with assms(1) obtain r where "r \<in> set (orders w)" "o_id r = pp_orderId d"
    by (auto simp: foreignKeys_def)
  then show ?thesis
    using find_exists[of r "orders w" "\<lambda>r. o_id r = pp_orderId d"] by auto
qed

lemma decrementStock_preserves:
  "decrementStock env k items w = (r, w') \<Longrightarrow>
   payments w' = payments w \<and> orders w' = orders w \<and> orderItems w' = orderItems w
   \<and> shipmentCalls w' = shipmentCalls w \<and> console w' = console w"
proof (induction items arbitrary: k w)
  case Nil
  then show ?case by auto
next
  case (Cons item items)
  show ?case
  proof (cases "product_update env k (oi_productId item)
             (\<lambda>p. p\<lparr>pr_stock := pr_stock p - oi_quantity item\<rparr>) w")
    case (Pair a w1)
    then have pres: "payments w1 = payments w \<and> orders w1 = orders w \<and> orderItems w1 = orderItems w
        \<and> shipmentCalls w1 = shipmentCalls w \<and> console w1 = console w"
      by (auto simp: product_update_def split: option.splits)
    show ?thesis
    proof (cases a)
      case (Inl e)
      with Pair Cons.prems show ?thesis using pres by auto
    next
      case (Inr p)
      with Pair Cons.prems have "decrementStock env (Suc k) items w1 = (r, w')" by simp
      from Cons.IH[OF this] pres show ?thesis by simp
    qed
  qed
qed

lemma shipmentStep_fields:
  "payments (shipmentStep env i w) = payments w"
  "orders (shipmentStep env i w) = orders w"
  "products (shipmentStep env i w) = products w"
  "orderItems (shipmentStep env i w) = orderItems w"
  "shipmentCalls (shipmentStep env i w) = shipmentCalls w @ [i]"
  by (auto simp: shipmentStep_def consoleLine_def Let_def split: shipment_outcome.splits bool.splits)

lemma consoleLine_fields:
  "payments (consoleLine s w) = payments w"
  "orders (consoleLine s w) = orders w"
  "products (consoleLine s w) = products w"
  "orderItems (consoleLine s w) = orderItems w"
  "shipmentCalls (consoleLine s w) = shipmentCalls w"
  by (auto simp: consoleLine_def)

lemma afterWrites_fields:
  "payments (afterWrites env d found w) =
     updateFirst (\<lambda>p. p_id p = p_id found) (paymentData env d found) (payments w)"
  "orders (afterWrites env d found w) =
     updateFirst (\<lambda>r. o_id r = pp_orderId d) (\<lambda>r. r\<lparr>o_status := orderStatusOf env d\<rparr>) (orders w)"
  "products (afterWrites env d found w) = products w"
  "orderItems (afterWrites env d found w) = orderItems w"
  "shipmentCalls (afterWrites env d found w) = shipmentCalls w"
  "console (afterWrites env d found w) = console w"
  by (auto simp: afterWrites_def)

lemma processPayment_after_writes:
  assumes "dbFault env PaymentFindFirst = None"
      and "find (paymentWhere d) (payments w) = Some found"
      and "dbFault env PaymentUpdate = None"
      and "dbFault env OrderUpdate = None"
      and "find (\<lambda>r. o_id r = pp_orderId d) (orders w) = Some ord"
  shows "payments (snd (processPayment env d w)) = payments (afterWrites env d found w)
       \<and> orders (snd (processPayment env d w)) = orders (afterWrites env d found w)"
proof -
  obtain row where row: "find (\<lambda>p. p_id p = p_id found) (payments w) = Some row"
    using found_row[OF assms(2)] by auto
  note tw = processPayment_try_writes[OF assms(1) assms(2) assms(3) row assms(4) assms(5)]
  show ?thesis
  proof (cases "paymentStatusOf env d = ''COMPLETED''")
    case False
    with tw show ?thesis by (simp add: processPayment_def Let_def)
  next
    case True
    obtain r w4 where ds: "decrementStock env 0 (itemsOf w (pp_orderId d)) (afterWrites env d found w) = (r, w4)"
      by (cases "decrementStock env 0 (itemsOf w (pp_orderId d)) (afterWrites env d found w)")
    from decrementStock_preserves[OF ds]
    have p4: "payments w4 = payments (afterWrites env d found w)"
             "orders w4 = orders (afterWrites env d found w)" by auto
    show ?thesis
      using tw True ds p4
      by (cases r) (simp_all add: processPayment_def Let_def shipmentStep_fields consoleLine_fields)
  qed
qed

lemma payment_status_afterWrites:
  "map_option p_status (paymentById (afterWrites env d found w) (p_id found)) =
   map_option (\<lambda>p. paymentStatusOf env d) (paymentById w (p_id found))"
  "map_option p_paidAt (paymentById (afterWrites env d found w) (p_id found)) =
   map_option (\<lambda>p. if paymentStatusOf env d = ''COMPLETED'' then Some (newDate env) else None)
     (paymentById w (p_id found))"
  by (simp_all add: paymentById_def afterWrites_fields find_updateFirst paymentData_def
      option.map_comp comp_def)

lemma order_status_afterWrites:
  "map_option o_status (orderById (afterWrites env d found w) (pp_orderId d)) =
   map_option (\<lambda>r. orderStatusOf env d) (orderById w (pp_orderId d))"
  by (simp add: orderById_def afterWrites_fields find_updateFirst option.map_comp comp_def)

lemma payment_update_cases:
  assumes "payment_update env i f w = (r, w')"
  shows "(w' = w \<and> (\<exists>e. r = Inl e)) \<or>
         (\<exists>row. find (\<lambda>p. p_id p = i) (payments w) = Some row \<and> r = Inr (f row)
            \<and> w' = w\<lparr>payments := updateFirst (\<lambda>p. p_id p = i) f (payments w)\<rparr>)"
  using assms by (auto simp: payment_update_def split: option.splits)

lemma order_update_cases:
  assumes "order_update env i f w = (r, w')"
  shows "(w' = w \<and> (\<exists>e. r = Inl e)) \<or>
         (\<exists>ord. find (\<lambda>r. o_id r = i) (orders w) = Some ord \<and> r = Inr (f ord, itemsOf w i)
            \<and> w' = w\<lparr>orders := updateFirst (\<lambda>r. o_id r = i) f (orders w)\<rparr>)"
  using assms by (auto simp: order_update_def split: option.splits)

lemma payment_update_effect:
  assumes "payment_update env i f w = (r, w')"
  shows "orders w' = orders w \<and> products w' = products w \<and> orderItems w' = orderItems w
       \<and> shipmentCalls w' = shipmentCalls w
       \<and> (\<forall>q \<in> set (payments w'). q \<in> set (payments w) \<or> (\<exists>row. q = f row))"
proof -
  from payment_update_cases[OF assms] show ?thesis
  proof
    assume "w' = w \<and> (\<exists>e. r = Inl e)"
    then show ?thesis by simp
  next
    assume "\<exists>row. find (\<lambda>p. p_id p = i) (payments w) = Some row \<and> r = Inr (f row)
            \<and> w' = w\<lparr>payments := updateFirst (\<lambda>p. p_id p = i) f (payments w)\<rparr>"
    then obtain row where row: "find (\<lambda>p. p_id p = i) (payments w) = Some row"
      and w': "w' = w\<lparr>payments := updateFirst (\<lambda>p. p_id p = i) f (payments w)\<rparr>" by auto
    from set_updateFirst[OF row, of f] w' show ?thesis by auto
  qed
qed

lemma order_update_effect:
  assumes "order_update env i f w = (r, w')"
  shows "payments w' = payments w \<and> products w' = products w \<and> orderItems w' = orderItems w
       \<and> shipmentCalls w' = shipmentCalls w
       \<and> (\<forall>q \<in> set (orders w'). q \<in> set (orders w) \<or> (\<exists>row. q = f row))"
proof -
  from order_update_cases[OF assms] show ?thesis
  proof
    assume "w' = w \<and> (\<exists>e. r = Inl e)"
    then show ?thesis by simp
  next
    assume "\<exists>ord. find (\<lambda>r. o_id r = i) (orders w) = Some ord \<and> r = Inr (f ord, itemsOf w i)
            \<and> w' = w\<lparr>orders := updateFirst (\<lambda>r. o_id r = i) f (orders w)\<rparr>"
    then obtain ord where ord: "find (\<lambda>r. o_id r = i) (orders w) = Some ord"
      and w': "w' = w\<lparr>orders := updateFirst (\<lambda>r. o_id r = i) f (orders w)\<rparr>" by auto
    from set_updateFirst[OF ord, of f] w' show ?thesis by auto
  qed
qed

lemma processPayment_unverified:
  assumes "\<not> isValidPayment env d"
  shows "products (snd (processPayment env d w)) = products w
       \<and> shipmentCalls (snd (processPayment env d w)) = shipmentCalls w
       \<and> orderItems (snd (processPayment env d w)) = orderItems w
       \<and> (\<forall>q \<in> set (payments (snd (processPayment env d w))).
             p_status q = ''COMPLETED'' \<longrightarrow> q \<in> set (payments w))
       \<and> (\<forall>r \<in> set (orders (snd (processPayment env d w))).
             o_status r = ''CONFIRMED'' \<longrightarrow> r \<in> set (orders w))
       \<and> \<not> pr_success (fst (processPayment env d w))"
proof -
  have st: "paymentStatusOf env d = ''FAILED''" "orderStatusOf env d = ''FAILED''"
    using assms by (simp_all add: paymentStatusOf_def orderStatusOf_def)
  obtain t w' where t: "processPayment_try env d w = (t, w')"
    by (cases "processPayment_try env d w")
  have body: "products w' = products w \<and> shipmentCalls w' = shipmentCalls w
       \<and> orderItems w' = orderItems w
       \<and> (\<forall>q \<in> set (payments w'). p_status q = ''COMPLETED'' \<longrightarrow> q \<in> set (payments w))
       \<and> (\<forall>r \<in> set (orders w'). o_status r = ''CONFIRMED'' \<longrightarrow> r \<in> set (orders w))
       \<and> (\<forall>res. t = Inr res \<longrightarrow> \<not> pr_success res)"
  proof (cases "dbFault env PaymentFindFirst")
    case (Some e)
    with t show ?thesis by (auto simp: processPayment_try_def payment_findFirst_def)
  next
    case None
    show ?thesis
    proof (cases "find (paymentWhere d) (payments w)")
      case nf: None
      with None t show ?thesis by (auto simp: processPayment_try_def payment_findFirst_def)
    next
      case (Some found)
      obtain r2 w2 where pu: "payment_update env (p_id found) (paymentData env d found) w = (r2, w2)"
        by (cases "payment_update env (p_id found) (paymentData env d found) w")
      note e2 = payment_update_effect[OF pu]
      have pay2: "\<forall>q \<in> set (payments w2). p_status q = ''COMPLETED'' \<longrightarrow> q \<in> set (payments w)"
        using e2 st by (auto simp: paymentData_def)
      show ?thesis
      proof (cases r2)
        case (Inl e)
        with None Some pu t have "w' = w2" "t = Inl e"
          by (auto simp: processPayment_try_def payment_findFirst_def)
        with e2 pay2 show ?thesis by auto
      next
        case (Inr up)
        obtain r3 w3 where ou: "order_update env (pp_orderId d)
              (\<lambda>r. r\<lparr>o_status := orderStatusOf env d\<rparr>) w2 = (r3, w3)"
          by (cases "order_update env (pp_orderId d) (\<lambda>r. r\<lparr>o_status := orderStatusOf env d\<rparr>) w2")
        note e3 = order_update_effect[OF ou]
        have ord3: "\<forall>r \<in> set (orders w3). o_status r = ''CONFIRMED'' \<longrightarrow> r \<in> set (orders w)"
          using e3 e2 st by auto
        have "w' = w3 \<and> (\<forall>res. t = Inr res \<longrightarrow> \<not> pr_success res)"
          using None Some pu Inr ou t st
          by (cases r3) (auto simp: processPayment_try_def payment_findFirst_def Let_def)
        with e2 e3 pay2 ord3 show ?thesis by auto
      qed
    qed
  qed
  show ?thesis
    using t body by (cases t) (auto simp: processPayment_def consoleLine_fields)
qed

section \<open>The lookup finds nothing\<close>

lemma processPayment_not_found:
  assumes "dbFault env PaymentFindFirst = None" and "find (paymentWhere d) (payments w) = None"
  shows "processPayment env d w = (ProcessError ''Payment record not found'', w)"
  using assms by (simp add: processPayment_def processPayment_try_def payment_findFirst_def)

lemma processPayment_lookup_throws:
  assumes "dbFault env PaymentFindFirst = Some e"
  shows "processPayment env d w =
    (ProcessError (errorMessage e ''Failed to process payment''),
     consoleLine ''Error processing payment:'' w)"
  using assms by (simp add: processPayment_def processPayment_try_def payment_findFirst_def)

text \<open>
  C2. When the lookup of \<open>processPayment\<close> selects no payment, that is, no row has the
  order id of the request and, if the request carries a gateway order id, that
  transaction id (a request without one is looked up by the order id alone), the call
  reports failure and leaves the payments, orders, products, order items and shipment
  calls as they were; when the lookup itself completes, the result is exactly
  \<open>{success: false, error: 'Payment record not found'}\<close> and the world is untouched.
\<close>

theorem processPayment_no_record:
  assumes "\<forall>p \<in> set (payments w). \<not> paymentWhere d p"
  shows "\<not> pr_success (fst (processPayment env d w))
       \<and> payments (snd (processPayment env d w)) = payments w
       \<and> orders (snd (processPayment env d w)) = orders w
       \<and> products (snd (processPayment env d w)) = products w
       \<and> orderItems (snd (processPayment env d w)) = orderItems w
       \<and> shipmentCalls (snd (processPayment env d w)) = shipmentCalls w
       \<and> (dbFault env PaymentFindFirst = None \<longrightarrow>
            processPayment env d w = (ProcessError ''Payment record not found'', w))"
proof -
  from assms have nf: "find (paymentWhere d) (payments w) = None"
    by (simp add: find_None_iff)
  show ?thesis
  proof (cases "dbFault env PaymentFindFirst")
    case None
    with nf show ?thesis by (simp add: processPayment_not_found)
  next
    case (Some e)
    then show ?thesis by (simp add: processPayment_lookup_throws consoleLine_def)
  qed
qed

theorem processPayment_no_record_witness:
  "find (paymentWhere (demoData\<lparr>pp_razorpayOrderId := Some ''order_Z''\<rparr>))
      (payments demoWorld) = None
   \<and> dbFault demoEnv PaymentFindFirst = None
   \<and> processPayment demoEnv (demoData\<lparr>pp_razorpayOrderId := Some ''order_Z''\<rparr>) demoWorld
       = (ProcessError ''Payment record not found'', demoWorld)"
  using processPayment_no_record
          [of demoWorld "demoData\<lparr>pp_razorpayOrderId := Some ''order_Z''\<rparr>" demoEnv]
  by (simp add: demoWorld_def demoData_def demoEnv_def demoPayment_def paymentWhere_def)

section \<open>Verification decides the statuses\<close>

lemma items_have_products:
  assumes "foreignKeys w"
  shows "\<forall>it \<in> set (itemsOf w i). \<exists>p \<in> set (products w). pr_id p = oi_productId it"
  using assms by (auto simp: foreignKeys_def itemsOf_def)

lemma processPayment_completed:
  assumes nf: "noDbFault env" and fk: "foreignKeys w"
      and found: "find (paymentWhere d) (payments w) = Some found"
      and v: "isValidPayment env d"
  shows "\<exists>row ord. processPayment env d w =
           (ProcessDone True (paymentData env d found row)
              (ord\<lparr>o_status := ''CONFIRMED''\<rparr>, itemsOf w (pp_orderId d)) ''COMPLETED''
              (resultMessage ''COMPLETED''),
            shipmentStep env (pp_orderId d)
              ((afterWrites env d found w)
                 \<lparr>products := decrementAll (itemsOf w (pp_orderId d)) (products w)\<rparr>))"
proof -
  from nf have f: "\<And>op. dbFault env op = None" by (simp add: noDbFault_def)
  obtain row where row: "find (\<lambda>p. p_id p = p_id found) (payments w) = Some row"
    using found_row[OF found] by auto
  obtain ord where ord: "find (\<lambda>r. o_id r = pp_orderId d) (orders w) = Some ord"
    using found_order[OF fk found] by auto
  have st: "paymentStatusOf env d = ''COMPLETED''" "orderStatusOf env d = ''CONFIRMED''"
    using v by (simp_all add: paymentStatusOf_def orderStatusOf_def)
  have ds: "decrementStock env 0 (itemsOf w (pp_orderId d)) (afterWrites env d found w) =
            (Inr (), (afterWrites env d found w)
                 \<lparr>products := decrementAll (itemsOf w (pp_orderId d)) (products w)\<rparr>)"
    using decrementStock_ok[of env "itemsOf w (pp_orderId d)" "afterWrites env d found w" 0]
          items_have_products[OF fk, of "pp_orderId d"] f
    by (simp add: afterWrites_fields)
  from processPayment_try_writes[OF f found f row f ord] st ds
  have "processPayment env d w =
           (ProcessDone True (paymentData env d found row)
              (ord\<lparr>o_status := ''CONFIRMED''\<rparr>, itemsOf w (pp_orderId d)) ''COMPLETED''
              (resultMessage ''COMPLETED''),
            shipmentStep env (pp_orderId d)
              ((afterWrites env d found w)
                 \<lparr>products := decrementAll (itemsOf w (pp_orderId d)) (products w)\<rparr>))"
    by (simp add: processPayment_def Let_def)
  then show ?thesis by blast
qed

lemma processPayment_completed_world:
  assumes nf: "noDbFault env" and fk: "foreignKeys w"
      and found: "find (paymentWhere d) (payments w) = Some found"
      and v: "isValidPayment env d"
      and run: "processPayment env d w = (res, w')"
  shows "pr_success res"
    and "payments w' = payments (afterWrites env d found w)"
    and "orders w' = orders (afterWrites env d found w)"
    and "products w' = decrementAll (itemsOf w (pp_orderId d)) (products w)"
    and "orderItems w' = orderItems w"
    and "shipmentCalls w' = shipmentCalls w @ [pp_orderId d]"
  using processPayment_completed[OF nf fk found v] run
  by (auto simp: shipmentStep_fields afterWrites_fields)

lemma statuses_after_writes:
  assumes found: "find (paymentWhere d) (payments w) = Some found" and fk: "foreignKeys w"
      and pw: "payments w' = payments (afterWrites env d found w)"
      and ow: "orders w' = orders (afterWrites env d found w)"
  shows "map_option p_status (paymentById w' (p_id found)) = Some (paymentStatusOf env d)"
    and "map_option o_status (orderById w' (pp_orderId d)) = Some (orderStatusOf env d)"
    and "map_option p_paidAt (paymentById w' (p_id found)) =
           Some (if paymentStatusOf env d = ''COMPLETED'' then Some (newDate env) else None)"
proof -
  obtain row where row: "find (\<lambda>p. p_id p = p_id found) (payments w) = Some row"
    using found_row[OF found] by auto
  obtain ord where ord: "find (\<lambda>r. o_id r = pp_orderId d) (orders w) = Some ord"
    using found_order[OF fk found] by auto
  have pb: "paymentById w' (p_id found) = paymentById (afterWrites env d found w) (p_id found)"
    using pw by (simp add: paymentById_def)
  have ob: "orderById w' (pp_orderId d) = orderById (afterWrites env d found w) (pp_orderId d)"
    using ow by (simp add: orderById_def)
  show "map_option p_status (paymentById w' (p_id found)) = Some (paymentStatusOf env d)"
    unfolding pb payment_status_afterWrites using row by (simp add: paymentById_def)
  show "map_option o_status (orderById w' (pp_orderId d)) = Some (orderStatusOf env d)"
    unfolding ob order_status_afterWrites using ord by (simp add: orderById_def)
  show "map_option p_paidAt (paymentById w' (p_id found)) =
           Some (if paymentStatusOf env d = ''COMPLETED'' then Some (newDate env) else None)"
    unfolding pb payment_status_afterWrites using row by (simp add: paymentById_def)
qed

text \<open>
  C1. \<open>processPayment\<close> writes COMPLETED and CONFIRMED only for the method \<open>razorpay\<close> with
  a payment id and a signature that \<open>verifyRazorpayPayment\<close> accepts. On every other path
  the call reports failure, no stock changes, no shipment call is issued, and no payment
  becomes COMPLETED nor any order CONFIRMED; when the payment is found and the two status
  writes go through, the payment and the order are FAILED (and COMPLETED and CONFIRMED
  when the verification succeeded).
\<close>

theorem processPayment_fail_closed:
  assumes run: "processPayment env d w = (res, w')"
  shows "(\<not> verifiedRazorpay env d \<longrightarrow>
            \<not> pr_success res \<and> products w' = products w \<and> shipmentCalls w' = shipmentCalls w
            \<and> (\<forall>q \<in> set (payments w'). p_status q = ''COMPLETED'' \<longrightarrow> q \<in> set (payments w))
            \<and> (\<forall>r \<in> set (orders w'). o_status r = ''CONFIRMED'' \<longrightarrow> r \<in> set (orders w)))
       \<and> (find (paymentWhere d) (payments w) = Some found \<and> foreignKeys w
            \<and> dbFault env PaymentFindFirst = None \<and> dbFault env PaymentUpdate = None
            \<and> dbFault env OrderUpdate = None \<longrightarrow>
            map_option p_status (paymentById w' (p_id found))
              = Some (if verifiedRazorpay env d then ''COMPLETED'' else ''FAILED'')
          \<and> map_option o_status (orderById w' (pp_orderId d))
              = Some (if verifiedRazorpay env d then ''CONFIRMED'' else ''FAILED''))"
proof -
  have first: "\<not> pr_success res \<and> products w' = products w \<and> shipmentCalls w' = shipmentCalls w
            \<and> (\<forall>q \<in> set (payments w'). p_status q = ''COMPLETED'' \<longrightarrow> q \<in> set (payments w))
            \<and> (\<forall>r \<in> set (orders w'). o_status r = ''CONFIRMED'' \<longrightarrow> r \<in> set (orders w))"
    if nv: "\<not> verifiedRazorpay env d"
  proof -
    from nv have "\<not> isValidPayment env d" by (simp add: isValidPayment_iff)
    from processPayment_unverified[OF this, of w] run show ?thesis by simp
  qed
  have second: "map_option p_status (paymentById w' (p_id found))
              = Some (if verifiedRazorpay env d then ''COMPLETED'' else ''FAILED'')
          \<and> map_option o_status (orderById w' (pp_orderId d))
              = Some (if verifiedRazorpay env d then ''CONFIRMED'' else ''FAILED'')"
    if a: "find (paymentWhere d) (payments w) = Some found \<and> foreignKeys w
            \<and> dbFault env PaymentFindFirst = None \<and> dbFault env PaymentUpdate = None
            \<and> dbFault env OrderUpdate = None"
  proof -
    from a have found: "find (paymentWhere d) (payments w) = Some found" and fk: "foreignKeys w"
      by auto
    obtain ord where ord: "find (\<lambda>r. o_id r = pp_orderId d) (orders w) = Some ord"
      using found_order[OF fk found] by auto
    from a have "payments (snd (processPayment env d w)) = payments (afterWrites env d found w)
         \<and> orders (snd (processPayment env d w)) = orders (afterWrites env d found w)"
      using processPayment_after_writes[OF _ found _ _ ord] by blast
    with run have pw: "payments w' = payments (afterWrites env d found w)"
      and ow: "orders w' = orders (afterWrites env d found w)" by auto
    note s = statuses_after_writes[OF found fk pw ow]
    from s(1) s(2) show ?thesis
      by (simp add: paymentStatusOf_def orderStatusOf_def isValidPayment_iff)
  qed
  from first second show ?thesis by blast
qed

lemmas demo_defs = demoWorld_def demoData_def demoEnv_def demoPayment_def demoOrder_def
  demoItem_def demoProduct_def

lemma demo_found: "find (paymentWhere demoData) (payments demoWorld) = Some demoPayment"
  by (simp add: demo_defs paymentWhere_def)

lemma demo_found_bad:
  "find (paymentWhere (demoData\<lparr>pp_razorpaySignature := Some ''bad''\<rparr>)) (payments demoWorld)
     = Some demoPayment"
  by (simp add: demo_defs paymentWhere_def)

lemma demo_fk: "foreignKeys demoWorld"
  by (simp add: demo_defs foreignKeys_def)

lemma demo_nofault: "noDbFault demoEnv"
  by (simp add: demo_defs noDbFault_def)

lemma demo_verified: "verifiedRazorpay demoEnv demoData"
  by (simp add: demo_defs verifiedRazorpay_def)

lemma demo_unverified:
  "\<not> verifiedRazorpay demoEnv (demoData\<lparr>pp_razorpaySignature := Some ''bad''\<rparr>)"
  by (simp add: demo_defs verifiedRazorpay_def)

theorem processPayment_fail_closed_witness:
  "\<not> verifiedRazorpay demoEnv (demoData\<lparr>pp_razorpaySignature := Some ''bad''\<rparr>)
   \<and> find (paymentWhere (demoData\<lparr>pp_razorpaySignature := Some ''bad''\<rparr>)) (payments demoWorld)
       = Some demoPayment
   \<and> foreignKeys demoWorld \<and> noDbFault demoEnv
   \<and> map_option p_status
        (paymentById (snd (processPayment demoEnv (demoData\<lparr>pp_razorpaySignature := Some ''bad''\<rparr>)
           demoWorld)) 1) = Some ''FAILED''
   \<and> products (snd (processPayment demoEnv (demoData\<lparr>pp_razorpaySignature := Some ''bad''\<rparr>)
           demoWorld)) = products demoWorld
   \<and> verifiedRazorpay demoEnv demoData
   \<and> map_option p_status (paymentById (snd (processPayment demoEnv demoData demoWorld)) 1)
       = Some ''COMPLETED''"
proof -
  let ?bad = "demoData\<lparr>pp_razorpaySignature := Some ''bad''\<rparr>"
  have f: "dbFault demoEnv PaymentFindFirst = None" "dbFault demoEnv PaymentUpdate = None"
    "dbFault demoEnv OrderUpdate = None" by (simp_all add: demoEnv_def)
  have id: "p_id demoPayment = 1" by (simp add: demoPayment_def)
  from processPayment_fail_closed[of demoEnv ?bad demoWorld
         "fst (processPayment demoEnv ?bad demoWorld)" "snd (processPayment demoEnv ?bad demoWorld)"
         demoPayment]
       processPayment_fail_closed[of demoEnv demoData demoWorld
         "fst (processPayment demoEnv demoData demoWorld)" "snd (processPayment demoEnv demoData demoWorld)"
         demoPayment]
  show ?thesis
    using demo_found demo_found_bad demo_fk demo_nofault demo_verified demo_unverified f id
    by simp
qed

section \<open>A call without the gateway's order id\<close>

lemma paymentWhere_pair:
  "pp_razorpayOrderId d \<noteq> None \<Longrightarrow> paymentWhere d p = pairMatches d p"
  by (auto simp: paymentWhere_def pairMatches_def)

text \<open>
  A call for another payment method carries no gateway order id. No payment of the
  concrete shop has its pair, yet the lookup selects the order's completed payment and
  the call overwrites it with FAILED.
\<close>

theorem processPayment_no_pair_counterexample:
  "find (pairMatches codData) (payments paidWorld) = None
   \<and> map_option p_status (paymentById paidWorld 1) = Some ''COMPLETED''
   \<and> map_option p_status (paymentById (snd (processPayment demoEnv codData paidWorld)) 1)
       = Some ''FAILED''
   \<and> fst (processPayment demoEnv codData paidWorld) \<noteq> ProcessError ''Payment record not found''"
proof -
  let ?found = "demoPayment\<lparr>p_status := ''COMPLETED'', p_paidAt := Some 1700000000\<rparr>"
  have np: "find (pairMatches codData) (payments paidWorld) = None"
    by (simp add: paidWorld_def demo_defs codData_def pairMatches_def)
  have found: "find (paymentWhere codData) (payments paidWorld) = Some ?found"
    by (simp add: paidWorld_def demo_defs codData_def paymentWhere_def)
  have fk: "foreignKeys paidWorld"
    by (simp add: paidWorld_def demo_defs foreignKeys_def)
  have f: "dbFault demoEnv PaymentFindFirst = None" "dbFault demoEnv PaymentUpdate = None"
    "dbFault demoEnv OrderUpdate = None" by (simp_all add: demoEnv_def)
  have nv: "\<not> isValidPayment demoEnv codData"
    by (simp add: isValidPayment_def codData_def)
  have id: "p_id ?found = 1" by (simp add: demoPayment_def)
  have before: "map_option p_status (paymentById paidWorld 1) = Some ''COMPLETED''"
    unfolding paymentById_def by (simp add: paidWorld_def demo_defs)
  obtain row where row: "find (\<lambda>p. p_id p = p_id ?found) (payments paidWorld) = Some row"
    using found_row[OF found] by auto
  obtain ord where ord: "find (\<lambda>r. o_id r = pp_orderId codData) (orders paidWorld) = Some ord"
    using found_order[OF fk found] by auto
  from processPayment_after_writes[OF f(1) found f(2) f(3) ord]
  have p: "payments (snd (processPayment demoEnv codData paidWorld)) =
       payments (afterWrites demoEnv codData ?found paidWorld)"
    and o: "orders (snd (processPayment demoEnv codData paidWorld)) =
       orders (afterWrites demoEnv codData ?found paidWorld)"
    by auto
  from statuses_after_writes(1)[OF found fk p o] nv
  have after: "map_option p_status (paymentById (snd (processPayment demoEnv codData paidWorld)) 1)
       = Some ''FAILED''"
    unfolding id by (simp add: paymentStatusOf_def)
  have "\<exists>res. processPayment_try demoEnv codData paidWorld
            = (Inr (ProcessDone False (paymentData demoEnv codData ?found row)
                      (ord\<lparr>o_status := orderStatusOf demoEnv codData\<rparr>,
                       itemsOf paidWorld (pp_orderId codData))
                      ''FAILED'' (resultMessage ''FAILED'')), res)"
    using processPayment_try_writes[OF f(1) found f(2) row f(3) ord] nv
    by (simp add: paymentStatusOf_def Let_def)
  then have res: "fst (processPayment demoEnv codData paidWorld)
        \<noteq> ProcessError ''Payment record not found''"
    by (auto simp: processPayment_def)
  from np before after res show ?thesis by simp
qed

section \<open>The shipment step and the stock scenario\<close>

lemma shipmentStep_console:
  "console (shipmentStep env i w) =
     console w @ [''Creating Delhivery shipment for order:'',
       (case createDelhiveryShipment env i of
          ShipmentReturned ok \<Rightarrow> if ok then ''Delhivery shipment created successfully:''
                                  else ''Failed to create Delhivery shipment:''
        | ShipmentThrew e \<Rightarrow> ''Error creating Delhivery shipment:'')]"
  by (auto simp: shipmentStep_def consoleLine_def Let_def split: shipment_outcome.splits bool.splits)

text \<open>
  C4. When the verification succeeded and the shipment-creation call reports failure or
  throws, \<open>processPayment\<close> still returns \<open>success: true\<close> with the success message, the
  payment stays COMPLETED and the order CONFIRMED, the call was issued once and its failure
  went to the console. The function has no exceptional outcome: every path returns a result.
\<close>

theorem processPayment_shipment_best_effort:
  assumes run: "processPayment env d w = (res, w')"
      and found: "find (paymentWhere d) (payments w) = Some found"
      and fk: "foreignKeys w" and nf: "noDbFault env"
      and v: "verifiedRazorpay env d"
      and ship: "createDelhiveryShipment env (pp_orderId d) = ShipmentReturned False
                 \<or> (\<exists>e. createDelhiveryShipment env (pp_orderId d) = ShipmentThrew e)"
  shows "(\<exists>p ou. res = ProcessDone True p ou ''COMPLETED''
                        ''Payment successful! Your order has been confirmed.'')
       \<and> map_option p_status (paymentById w' (p_id found)) = Some ''COMPLETED''
       \<and> map_option o_status (orderById w' (pp_orderId d)) = Some ''CONFIRMED''
       \<and> shipmentCalls w' = shipmentCalls w @ [pp_orderId d]
       \<and> console w' = console w @ [''Creating Delhivery shipment for order:'',
            (if createDelhiveryShipment env (pp_orderId d) = ShipmentReturned False
             then ''Failed to create Delhivery shipment:''
             else ''Error creating Delhivery shipment:'')]"
proof -
  from v have iv: "isValidPayment env d" by (simp add: isValidPayment_iff)
  from processPayment_completed[OF nf fk found iv] run
  obtain row ord where res: "res = ProcessDone True (paymentData env d found row)
              (ord\<lparr>o_status := ''CONFIRMED''\<rparr>, itemsOf w (pp_orderId d)) ''COMPLETED''
              (resultMessage ''COMPLETED'')"
    and w': "w' = shipmentStep env (pp_orderId d)
              ((afterWrites env d found w)
                 \<lparr>products := decrementAll (itemsOf w (pp_orderId d)) (products w)\<rparr>)"
    by auto
  note cw = processPayment_completed_world[OF nf fk found iv run]
  note s = statuses_after_writes[OF found fk cw(2) cw(3)]
  have st: "paymentStatusOf env d = ''COMPLETED''" "orderStatusOf env d = ''CONFIRMED''"
    using iv by (simp_all add: paymentStatusOf_def orderStatusOf_def)
  have c: "console w' = console w @ [''Creating Delhivery shipment for order:'',
            (if createDelhiveryShipment env (pp_orderId d) = ShipmentReturned False
             then ''Failed to create Delhivery shipment:''
             else ''Error creating Delhivery shipment:'')]"
    using ship unfolding w' shipmentStep_console by (auto simp: afterWrites_fields)
  from res s(1) s(2) st cw(6) c show ?thesis by (simp add: resultMessage_def)
qed

theorem processPayment_shipment_best_effort_witness:
  "find (paymentWhere demoData) (payments demoWorld) = Some demoPayment
   \<and> foreignKeys demoWorld
   \<and> noDbFault (demoEnv\<lparr>createDelhiveryShipment := \<lambda>i. ShipmentThrew (JsError ''timeout of 30000ms exceeded'')\<rparr>)
   \<and> verifiedRazorpay (demoEnv\<lparr>createDelhiveryShipment := \<lambda>i. ShipmentThrew (JsError ''timeout of 30000ms exceeded'')\<rparr>) demoData
   \<and> pr_success (fst (processPayment
        (demoEnv\<lparr>createDelhiveryShipment := \<lambda>i. ShipmentThrew (JsError ''timeout of 30000ms exceeded'')\<rparr>)
        demoData demoWorld))
   \<and> map_option o_status (orderById (snd (processPayment
        (demoEnv\<lparr>createDelhiveryShipment := \<lambda>i. ShipmentThrew (JsError ''timeout of 30000ms exceeded'')\<rparr>)
        demoData demoWorld)) 1001) = Some ''CONFIRMED''"
proof -
  let ?env = "demoEnv\<lparr>createDelhiveryShipment := \<lambda>i. ShipmentThrew (JsError ''timeout of 30000ms exceeded'')\<rparr>"
  have nf: "noDbFault ?env" by (simp add: demoEnv_def noDbFault_def)
  have v: "verifiedRazorpay ?env demoData" by (simp add: demo_defs verifiedRazorpay_def)
  have ship: "createDelhiveryShipment ?env (pp_orderId demoData) = ShipmentReturned False
                 \<or> (\<exists>e. createDelhiveryShipment ?env (pp_orderId demoData) = ShipmentThrew e)"
    by simp
  have oid: "pp_orderId demoData = 1001" by (simp add: demoData_def)
  from processPayment_shipment_best_effort[OF surjective_pairing demo_found demo_fk nf v ship]
  show ?thesis using nf v demo_found demo_fk oid by auto
qed

text \<open>
  C5. For an order whose only item has quantity 3 and whose product has stock 10, a call
  with a verified payment ends with the payment COMPLETED, the order CONFIRMED, the
  product's stock at 7, every other stock as it was, and exactly one shipment-creation call.
\<close>

theorem processPayment_scenario:
  assumes run: "processPayment env d w = (res, w')"
      and found: "find (paymentWhere d) (payments w) = Some found"
      and fk: "foreignKeys w" and nf: "noDbFault env"
      and v: "verifiedRazorpay env d"
      and items: "itemsOf w (pp_orderId d) = [item]"
      and qty: "oi_quantity item = 3"
      and stock: "stockOf w (oi_productId item) = Some 10"
  shows "pr_success res
       \<and> map_option p_status (paymentById w' (p_id found)) = Some ''COMPLETED''
       \<and> map_option o_status (orderById w' (pp_orderId d)) = Some ''CONFIRMED''
       \<and> stockOf w' (oi_productId item) = Some 7
       \<and> (\<forall>i. i \<noteq> oi_productId item \<longrightarrow> stockOf w' i = stockOf w i)
       \<and> shipmentCalls w' = shipmentCalls w @ [pp_orderId d]"
proof -
  from v have iv: "isValidPayment env d" by (simp add: isValidPayment_iff)
  note cw = processPayment_completed_world[OF nf fk found iv run]
  note s = statuses_after_writes[OF found fk cw(2) cw(3)]
  have st: "paymentStatusOf env d = ''COMPLETED''" "orderStatusOf env d = ''CONFIRMED''"
    using iv by (simp_all add: paymentStatusOf_def orderStatusOf_def)
  have stk: "stockOf w' i = map_option (\<lambda>s. s - quantityOf [item] i) (stockOf w i)" for i
    unfolding stockOf_def cw(4) items by (rule stock_decrementAll)
  have "stockOf w' (oi_productId item) = Some 7"
    using stk[of "oi_productId item"] stock qty by (simp add: quantityOf_def)
  moreover have "\<forall>i. i \<noteq> oi_productId item \<longrightarrow> stockOf w' i = stockOf w i"
    using stk by (auto simp: quantityOf_def option.map_ident)
  ultimately show ?thesis using cw(1) cw(6) s(1) s(2) st by simp
qed

theorem processPayment_scenario_witness:
  "find (paymentWhere demoData) (payments demoWorld) = Some demoPayment
   \<and> foreignKeys demoWorld \<and> noDbFault demoEnv \<and> verifiedRazorpay demoEnv demoData
   \<and> itemsOf demoWorld 1001 = [demoItem] \<and> oi_quantity demoItem = 3
   \<and> stockOf demoWorld 7 = Some 10
   \<and> stockOf (snd (processPayment demoEnv demoData demoWorld)) 7 = Some 7
   \<and> shipmentCalls (snd (processPayment demoEnv demoData demoWorld)) = [1001]"
proof -
  have oid: "pp_orderId demoData = 1001" by (simp add: demoData_def)
  have items: "itemsOf demoWorld (pp_orderId demoData) = [demoItem]"
    by (simp add: demo_defs itemsOf_def)
  have qty: "oi_quantity demoItem = 3" and pid: "oi_productId demoItem = 7"
    by (simp_all add: demoItem_def)
  have stock: "stockOf demoWorld (oi_productId demoItem) = Some 10"
    by (simp add: demo_defs stockOf_def)
  have sc: "shipmentCalls demoWorld = []" by (simp add: demoWorld_def)
  from processPayment_scenario[OF surjective_pairing demo_found demo_fk demo_nofault demo_verified
         items qty stock]
  show ?thesis
    using demo_found demo_fk demo_nofault demo_verified items qty stock oid pid sc by simp
qed

section \<open>Calling processPayment again\<close>

lemma find_updateFirst_still:
  "(\<And>x. Q (f x) = Q x) \<Longrightarrow> find Q xs = Some x \<Longrightarrow> \<exists>y. find Q (updateFirst P f xs) = Some y"
  by (induction xs) (auto split: if_splits)

lemma all_ex_subset:
  "(\<forall>p \<in> set ps. \<exists>r \<in> set rs. g r = f p) = (set (map f ps) \<subseteq> set (map g rs))"
  by force

lemma foreignKeys_alt:
  "foreignKeys w =
     (set (map p_orderId (payments w)) \<subseteq> set (map o_id (orders w)) \<and>
      set (map oi_productId (orderItems w)) \<subseteq> set (map pr_id (products w)))"
  unfolding foreignKeys_def all_ex_subset by (rule refl)

lemma foreignKeys_cong:
  assumes "map p_orderId (payments w') = map p_orderId (payments w)"
      and "map o_id (orders w') = map o_id (orders w)"
      and "orderItems w' = orderItems w"
      and "map pr_id (products w') = map pr_id (products w)"
      and "foreignKeys w"
  shows "foreignKeys w'"
  using assms unfolding foreignKeys_alt by simp

lemma map_decrementAll: "map pr_id (decrementAll items ps) = map pr_id ps"
proof (induction items arbitrary: ps)
  case Nil
  then show ?case by (simp add: decrementAll_def)
next
  case (Cons item items)
  have "decrementAll (item # items) ps = decrementAll items (decrementOne item ps)"
    by (simp add: decrementAll_def)
  with Cons.IH[of "decrementOne item ps"] show ?case
    by (simp add: decrementOne_def map_updateFirst)
qed

lemma afterWrites_keys:
  "map p_orderId (payments (afterWrites env d found w)) = map p_orderId (payments w)"
  "map o_id (orders (afterWrites env d found w)) = map o_id (orders w)"
  by (simp_all add: afterWrites_fields map_updateFirst paymentData_def)

lemma afterWrites_still_found:
  assumes "find (paymentWhere d) (payments w) = Some found"
  shows "\<exists>y. find (paymentWhere d) (payments (afterWrites env d found w)) = Some y"
  unfolding afterWrites_fields
  by (rule find_updateFirst_still[OF _ assms])
     (simp add: paymentWhere_def paymentData_def split: option.splits)

lemma processPayment_completed_next:
  assumes nf: "noDbFault env" and fk: "foreignKeys w"
      and found: "find (paymentWhere d) (payments w) = Some found"
      and v: "isValidPayment env d"
      and run: "processPayment env d w = (res, w')"
  shows "foreignKeys w'"
    and "\<exists>y. find (paymentWhere d) (payments w') = Some y"
    and "itemsOf w' i = itemsOf w i"
proof -
  note cw = processPayment_completed_world[OF nf fk found v run]
  show "foreignKeys w'"
    by (rule foreignKeys_cong[OF _ _ cw(5) _ fk])
       (simp_all add: cw afterWrites_keys map_decrementAll)
  show "\<exists>y. find (paymentWhere d) (payments w') = Some y"
    unfolding cw(2) by (rule afterWrites_still_found[OF found])
  show "itemsOf w' i = itemsOf w i"
    by (simp add: itemsOf_def cw(5))
qed

lemma processPayment_completed_stock:
  assumes nf: "noDbFault env" and fk: "foreignKeys w"
      and found: "find (paymentWhere d) (payments w) = Some found"
      and v: "isValidPayment env d"
      and run: "processPayment env d w = (res, w')"
  shows "stockOf w' i = map_option (\<lambda>s. s - quantityOf (itemsOf w (pp_orderId d)) i) (stockOf w i)"
  unfolding stockOf_def processPayment_completed_world(4)[OF nf fk found v run]
  by (rule stock_decrementAll)

text \<open>
  C3. \<open>processPayment\<close> does not look at what an earlier call did. Two calls with the same
  request, both verified, with the payment found and the database calls completing, each
  decrement every product's stock by the order's quantity of it and each issue one
  shipment-creation call: after the second call the stock is lower by twice that quantity
  and two calls have been issued. Two calls that both fail verification leave the stock
  and the shipment calls as they were.
\<close>

theorem processPayment_repeats:
  assumes run1: "processPayment enva d w = (r1, w1)"
      and run2: "processPayment envb d w1 = (r2, w2)"
  shows "(find (paymentWhere d) (payments w) \<noteq> None \<and> foreignKeys w
            \<and> noDbFault enva \<and> noDbFault envb
            \<and> verifiedRazorpay enva d \<and> verifiedRazorpay envb d \<longrightarrow>
            (\<forall>i. stockOf w1 i
                    = map_option (\<lambda>s. s - quantityOf (itemsOf w (pp_orderId d)) i) (stockOf w i)
                \<and> stockOf w2 i
                    = map_option (\<lambda>s. s - 2 * quantityOf (itemsOf w (pp_orderId d)) i) (stockOf w i))
            \<and> shipmentCalls w1 = shipmentCalls w @ [pp_orderId d]
            \<and> shipmentCalls w2 = shipmentCalls w @ [pp_orderId d, pp_orderId d])
       \<and> (\<not> verifiedRazorpay enva d \<and> \<not> verifiedRazorpay envb d \<longrightarrow>
            products w2 = products w \<and> shipmentCalls w2 = shipmentCalls w)"
proof -
  have first: "(\<forall>i. stockOf w1 i
                    = map_option (\<lambda>s. s - quantityOf (itemsOf w (pp_orderId d)) i) (stockOf w i)
                \<and> stockOf w2 i
                    = map_option (\<lambda>s. s - 2 * quantityOf (itemsOf w (pp_orderId d)) i) (stockOf w i))
            \<and> shipmentCalls w1 = shipmentCalls w @ [pp_orderId d]
            \<and> shipmentCalls w2 = shipmentCalls w @ [pp_orderId d, pp_orderId d]"
    if a: "find (paymentWhere d) (payments w) \<noteq> None \<and> foreignKeys w
            \<and> noDbFault enva \<and> noDbFault envb
            \<and> verifiedRazorpay enva d \<and> verifiedRazorpay envb d"
  proof -
    from a obtain found where found: "find (paymentWhere d) (payments w) = Some found" by auto
    from a have fk: "foreignKeys w" and nf1: "noDbFault enva" and nf2: "noDbFault envb"
      and v1: "isValidPayment enva d" and v2: "isValidPayment envb d"
      by (simp_all add: isValidPayment_iff)
    note n = processPayment_completed_next[OF nf1 fk found v1 run1]
    from n(2) obtain found1 where found1: "find (paymentWhere d) (payments w1) = Some found1"
      by auto
    note s1 = processPayment_completed_stock[OF nf1 fk found v1 run1]
    note s2 = processPayment_completed_stock[OF nf2 n(1) found1 v2 run2]
    note c1 = processPayment_completed_world(6)[OF nf1 fk found v1 run1]
    note c2 = processPayment_completed_world(6)[OF nf2 n(1) found1 v2 run2]
    have "stockOf w2 i
            = map_option (\<lambda>s. s - 2 * quantityOf (itemsOf w (pp_orderId d)) i) (stockOf w i)" for i
      unfolding s2 s1 n(3) by (simp add: option.map_comp comp_def)
    with s1 c1 c2 show ?thesis by simp
  qed
  have second: "products w2 = products w \<and> shipmentCalls w2 = shipmentCalls w"
    if b: "\<not> verifiedRazorpay enva d \<and> \<not> verifiedRazorpay envb d"
  proof -
    from b have "\<not> isValidPayment enva d" "\<not> isValidPayment envb d"
      by (simp_all add: isValidPayment_iff)
    from processPayment_unverified[OF this(1), of w] processPayment_unverified[OF this(2), of w1]
      run1 run2
    show ?thesis by simp
  qed
  from first second show ?thesis by blast
qed

theorem processPayment_repeats_witness:
  "find (paymentWhere demoData) (payments demoWorld) \<noteq> None
   \<and> foreignKeys demoWorld \<and> noDbFault demoEnv \<and> verifiedRazorpay demoEnv demoData
   \<and> stockOf demoWorld 7 = Some 10
   \<and> quantityOf (itemsOf demoWorld 1001) 7 = 3
   \<and> stockOf (snd (processPayment demoEnv demoData
                (snd (processPayment demoEnv demoData demoWorld)))) 7 = Some 4
   \<and> \<not> verifiedRazorpay demoEnv (demoData\<lparr>pp_razorpaySignature := Some ''bad''\<rparr>)
   \<and> products (snd (processPayment demoEnv (demoData\<lparr>pp_razorpaySignature := Some ''bad''\<rparr>)
                (snd (processPayment demoEnv (demoData\<lparr>pp_razorpaySignature := Some ''bad''\<rparr>)
                   demoWorld)))) = products demoWorld"
proof -
  have oid: "pp_orderId demoData = 1001" by (simp add: demoData_def)
  have q: "quantityOf (itemsOf demoWorld 1001) 7 = 3"
    by (simp add: demo_defs itemsOf_def quantityOf_def)
  have stock: "stockOf demoWorld 7 = Some 10"
    by (simp add: demo_defs stockOf_def)
  from processPayment_repeats[where enva = demoEnv and envb = demoEnv and d = demoData
         and w = demoWorld, OF surjective_pairing surjective_pairing]
       processPayment_repeats[where enva = demoEnv and envb = demoEnv
         and d = "demoData\<lparr>pp_razorpaySignature := Some ''bad''\<rparr>"
         and w = demoWorld, OF surjective_pairing surjective_pairing]
  show ?thesis
    using demo_found demo_fk demo_nofault demo_verified demo_unverified oid q stock by simp
qed

text \<open>
  In the concrete shop (stock 10, quantity 3) one call leaves stock 7, the second call
  leaves stock 4 and a second shipment-creation call.
\<close>

theorem processPayment_twice_counterexample:
  "stockOf (snd (processPayment demoEnv demoData demoWorld)) 7 = Some 7
   \<and> stockOf (snd (processPayment demoEnv demoData
                (snd (processPayment demoEnv demoData demoWorld)))) 7 = Some 4
   \<and> shipmentCalls (snd (processPayment demoEnv demoData
                (snd (processPayment demoEnv demoData demoWorld)))) = [1001, 1001]"
proof -
  let ?w1 = "snd (processPayment demoEnv demoData demoWorld)"
  let ?w2 = "snd (processPayment demoEnv demoData ?w1)"
  have iv: "isValidPayment demoEnv demoData"
    using demo_verified by (simp add: isValidPayment_iff)
  have oid: "pp_orderId demoData = 1001" by (simp add: demoData_def)
  have q: "quantityOf (itemsOf demoWorld 1001) 7 = 3"
    by (simp add: demo_defs itemsOf_def quantityOf_def)
  have stock: "stockOf demoWorld 7 = Some 10"
    by (simp add: demo_defs stockOf_def)
  have sc: "shipmentCalls demoWorld = []" by (simp add: demoWorld_def)
  note n = processPayment_completed_next[OF demo_nofault demo_fk demo_found iv surjective_pairing]
  from n(2) obtain found1 where found1: "find (paymentWhere demoData) (payments ?w1) = Some found1"
    by auto
  note s1 = processPayment_completed_stock[OF demo_nofault demo_fk demo_found iv surjective_pairing]
  note s2 = processPayment_completed_stock[OF demo_nofault n(1) found1 iv surjective_pairing]
  note c1 = processPayment_completed_world(6)[OF demo_nofault demo_fk demo_found iv surjective_pairing]
  note c2 = processPayment_completed_world(6)[OF demo_nofault n(1) found1 iv surjective_pairing]
  have a: "stockOf ?w1 7 = Some 7"
    unfolding s1 using q stock oid by simp
  have b: "stockOf ?w2 7 = Some 4"
    unfolding s2 n(3) using a q oid by simp
  have c: "shipmentCalls ?w2 = [1001, 1001]"
    unfolding c2 c1 using sc oid by simp
  from a b c show ?thesis by simp
qed

section \<open>The two status writes\<close>

lemma processPayment_order_write_throws:
  assumes ff: "dbFault env PaymentFindFirst = None"
      and found: "find (paymentWhere d) (payments w) = Some found"
      and pu: "dbFault env PaymentUpdate = None"
      and ou: "dbFault env OrderUpdate = Some e"
  shows "processPayment env d w =
           (ProcessError (errorMessage e ''Failed to process payment''),
            consoleLine ''Error processing payment:''
              (w\<lparr>payments := updateFirst (\<lambda>p. p_id p = p_id found) (paymentData env d found)
                                (payments w)\<rparr>))"
proof -
  obtain row where row: "find (\<lambda>p. p_id p = p_id found) (payments w) = Some row"
    using found_row[OF found] by auto
  show ?thesis
    using ff found
    by (simp add: processPayment_def processPayment_try_def payment_findFirst_def
        payment_update_ok[OF pu row] order_update_throws[OF ou])
qed

lemma payment_status_after_update:
  assumes "find (paymentWhere d) (payments w) = Some found"
      and "payments w' = updateFirst (\<lambda>p. p_id p = p_id found) (paymentData env d found) (payments w)"
  shows "map_option p_status (paymentById w' (p_id found)) = Some (paymentStatusOf env d)"
proof -
  obtain row where row: "find (\<lambda>p. p_id p = p_id found) (payments w) = Some row"
    using found_row[OF assms(1)] by auto
  have keep: "\<And>x. p_id x = p_id found \<Longrightarrow> p_id (paymentData env d found x) = p_id found"
    by (simp add: paymentData_def)
  show ?thesis
    unfolding paymentById_def assms(2)
    using find_updateFirst[of "\<lambda>p. p_id p = p_id found" "paymentData env d found" "payments w", OF keep] row
    by (simp add: paymentData_def)
qed

text \<open>
  C7. The payment write and the order write of \<open>processPayment\<close> are two statements, the
  payment first. If the order write throws after the payment write went through, the
  payment keeps its new status, the orders, the stock and the shipment calls are as
  before, and the call returns \<open>{success: false, error}\<close> with the thrown message. If
  both writes go through, the two statuses agree: COMPLETED with CONFIRMED, or FAILED
  with FAILED.
\<close>

theorem processPayment_two_writes:
  assumes run: "processPayment env d w = (res, w')"
      and found: "find (paymentWhere d) (payments w) = Some found"
      and ff: "dbFault env PaymentFindFirst = None"
      and pu: "dbFault env PaymentUpdate = None"
  shows "(dbFault env OrderUpdate = Some e \<longrightarrow>
            res = ProcessError (errorMessage e ''Failed to process payment'')
          \<and> map_option p_status (paymentById w' (p_id found))
               = Some (if verifiedRazorpay env d then ''COMPLETED'' else ''FAILED'')
          \<and> orders w' = orders w \<and> products w' = products w
          \<and> shipmentCalls w' = shipmentCalls w)
       \<and> (dbFault env OrderUpdate = None \<and> foreignKeys w \<longrightarrow>
            (map_option p_status (paymentById w' (p_id found)),
             map_option o_status (orderById w' (pp_orderId d)))
              = (if verifiedRazorpay env d then (Some ''COMPLETED'', Some ''CONFIRMED'')
                 else (Some ''FAILED'', Some ''FAILED'')))"
proof -
  have first: "res = ProcessError (errorMessage e ''Failed to process payment'')
          \<and> map_option p_status (paymentById w' (p_id found))
               = Some (if verifiedRazorpay env d then ''COMPLETED'' else ''FAILED'')
          \<and> orders w' = orders w \<and> products w' = products w
          \<and> shipmentCalls w' = shipmentCalls w"
    if ou: "dbFault env OrderUpdate = Some e"
  proof -
    from processPayment_order_write_throws[OF ff found pu ou] run
    have res: "res = ProcessError (errorMessage e ''Failed to process payment'')"
      and w': "w' = consoleLine ''Error processing payment:''
              (w\<lparr>payments := updateFirst (\<lambda>p. p_id p = p_id found) (paymentData env d found)
                                (payments w)\<rparr>)"
      by auto
    from w' have pw: "payments w' = updateFirst (\<lambda>p. p_id p = p_id found)
                        (paymentData env d found) (payments w)"
      and rest: "orders w' = orders w" "products w' = products w"
                "shipmentCalls w' = shipmentCalls w"
      by (simp_all add: consoleLine_def)
    from payment_status_after_update[OF found pw] res rest show ?thesis
      by (simp add: paymentStatusOf_def isValidPayment_iff)
  qed
  have second: "(map_option p_status (paymentById w' (p_id found)),
             map_option o_status (orderById w' (pp_orderId d)))
              = (if verifiedRazorpay env d then (Some ''COMPLETED'', Some ''CONFIRMED'')
                 else (Some ''FAILED'', Some ''FAILED''))"
    if b: "dbFault env OrderUpdate = None \<and> foreignKeys w"
  proof -
    from b have ou: "dbFault env OrderUpdate = None" and fk: "foreignKeys w" by auto
    obtain ord where ord: "find (\<lambda>r. o_id r = pp_orderId d) (orders w) = Some ord"
      using found_order[OF fk found] by auto
    from processPayment_after_writes[OF ff found pu ou ord] run
    have pw: "payments w' = payments (afterWrites env d found w)"
      and ow: "orders w' = orders (afterWrites env d found w)" by auto
    note s = statuses_after_writes[OF found fk pw ow]
    show ?thesis
      unfolding s(1) s(2)
      by (simp add: paymentStatusOf_def orderStatusOf_def isValidPayment_iff)
  qed
  from first second show ?thesis by blast
qed

theorem processPayment_two_writes_witness:
  "find (paymentWhere demoData) (payments demoWorld) = Some demoPayment
   \<and> dbFault (demoEnv\<lparr>dbFault := \<lambda>op. if op = OrderUpdate then Some (JsError ''connection lost'') else None\<rparr>)
        OrderUpdate = Some (JsError ''connection lost'')
   \<and> fst (processPayment
        (demoEnv\<lparr>dbFault := \<lambda>op. if op = OrderUpdate then Some (JsError ''connection lost'') else None\<rparr>)
        demoData demoWorld) = ProcessError ''connection lost''
   \<and> foreignKeys demoWorld \<and> dbFault demoEnv OrderUpdate = None
   \<and> verifiedRazorpay demoEnv demoData
   \<and> map_option o_status (orderById (snd (processPayment demoEnv demoData demoWorld)) 1001)
       = Some ''CONFIRMED''"
proof -
  let ?env = "demoEnv\<lparr>dbFault := \<lambda>op. if op = OrderUpdate then Some (JsError ''connection lost'') else None\<rparr>"
  have f: "dbFault ?env PaymentFindFirst = None" "dbFault ?env PaymentUpdate = None"
    "dbFault ?env OrderUpdate = Some (JsError ''connection lost'')" by simp_all
  have g: "dbFault demoEnv PaymentFindFirst = None" "dbFault demoEnv PaymentUpdate = None"
    "dbFault demoEnv OrderUpdate = None" by (simp_all add: demoEnv_def)
  have oid: "pp_orderId demoData = 1001" by (simp add: demoData_def)
  from processPayment_two_writes[OF surjective_pairing demo_found f(1) f(2),
         of "JsError ''connection lost''"]
       processPayment_two_writes[OF surjective_pairing demo_found g(1) g(2)]
  show ?thesis
    using f g demo_found demo_fk demo_verified oid by (simp add: errorMessage_def)
qed

text \<open>
  In the concrete shop, with an order write that throws: the payment is COMPLETED and
  the order is still PENDING.
\<close>

theorem processPayment_atomic_counterexample:
  "map_option p_status (paymentById (snd (processPayment
        (demoEnv\<lparr>dbFault := \<lambda>op. if op = OrderUpdate then Some (JsError ''connection lost'') else None\<rparr>)
        demoData demoWorld)) 1) = Some ''COMPLETED''
   \<and> map_option o_status (orderById (snd (processPayment
        (demoEnv\<lparr>dbFault := \<lambda>op. if op = OrderUpdate then Some (JsError ''connection lost'') else None\<rparr>)
        demoData demoWorld)) 1001) = Some ''PENDING''"
proof -
  let ?env = "demoEnv\<lparr>dbFault := \<lambda>op. if op = OrderUpdate then Some (JsError ''connection lost'') else None\<rparr>"
  have f: "dbFault ?env PaymentFindFirst = None" "dbFault ?env PaymentUpdate = None"
    "dbFault ?env OrderUpdate = Some (JsError ''connection lost'')" by simp_all
  have v: "isValidPayment ?env demoData"
    by (simp add: demo_defs isValidPayment_def truthyStr_def)
  have id: "p_id demoPayment = 1" by (simp add: demoPayment_def)
  note t = processPayment_order_write_throws[OF f(1) demo_found f(2) f(3)]
  have pw: "payments (snd (processPayment ?env demoData demoWorld)) =
        updateFirst (\<lambda>p. p_id p = p_id demoPayment) (paymentData ?env demoData demoPayment)
          (payments demoWorld)"
    and ow: "orders (snd (processPayment ?env demoData demoWorld)) = orders demoWorld"
    unfolding t by (simp_all add: consoleLine_def)
  have a: "map_option p_status (paymentById (snd (processPayment ?env demoData demoWorld)) 1)
        = Some ''COMPLETED''"
    using payment_status_after_update[OF demo_found pw] v id by (simp add: paymentStatusOf_def)
  have b: "map_option o_status (orderById (snd (processPayment ?env demoData demoWorld)) 1001)
        = Some ''PENDING''"
    unfolding orderById_def ow by (simp add: demoWorld_def demoOrder_def)
  from a b show ?thesis by simp
qed

section \<open>getPaymentDetails\<close>

lemma getPaymentDetails_ok:
  "dbFault env PaymentFindFirst = None \<Longrightarrow>
   getPaymentDetails env i w = (DetailsDone (find (\<lambda>p. p_orderId p = i) (payments w)), w)"
  by (simp add: getPaymentDetails_def payment_findFirst_def)

lemma getPaymentDetails_throws:
  "dbFault env PaymentFindFirst = Some e \<Longrightarrow>
   getPaymentDetails env i w =
     (DetailsError (errorMessage e ''Failed to get payment details''),
      consoleLine ''Error getting payment details:'' w)"
  by (simp add: getPaymentDetails_def payment_findFirst_def)

text \<open>
  C10. When the lookup completes, \<open>getPaymentDetails\<close> returns \<open>success: true\<close> with the
  first payment of the order, which is \<open>null\<close> when the order has no payment; the world
  is untouched. It returns \<open>{success: false, error}\<close> exactly when the lookup throws.
\<close>

theorem getPaymentDetails_null_is_success:
  "(dbFault env PaymentFindFirst = None \<longrightarrow>
      getPaymentDetails env i w = (DetailsDone (find (\<lambda>p. p_orderId p = i) (payments w)), w))
   \<and> (dbFault env PaymentFindFirst = None \<and> (\<forall>p \<in> set (payments w). p_orderId p \<noteq> i) \<longrightarrow>
      getPaymentDetails env i w = (DetailsDone None, w))
   \<and> ((\<exists>m. fst (getPaymentDetails env i w) = DetailsError m)
        = (dbFault env PaymentFindFirst \<noteq> None))"
proof -
  have a: "find (\<lambda>p. p_orderId p = i) (payments w) = None"
    if "\<forall>p \<in> set (payments w). p_orderId p \<noteq> i"
    using that by (simp add: find_None_iff)
  show ?thesis
  proof (cases "dbFault env PaymentFindFirst")
    case None
    then show ?thesis using a by (auto simp: getPaymentDetails_ok)
  next
    case (Some e)
    then show ?thesis by (simp add: getPaymentDetails_throws)
  qed
qed

theorem getPaymentDetails_null_is_success_witness:
  "dbFault demoEnv PaymentFindFirst = None
   \<and> find (\<lambda>p. p_orderId p = 5) (payments demoWorld) = None
   \<and> getPaymentDetails demoEnv 5 demoWorld = (DetailsDone None, demoWorld)
   \<and> dbFault (demoEnv\<lparr>dbFault := \<lambda>op. Some (JsError ''connection lost'')\<rparr>) PaymentFindFirst
       = Some (JsError ''connection lost'')
   \<and> fst (getPaymentDetails (demoEnv\<lparr>dbFault := \<lambda>op. Some (JsError ''connection lost'')\<rparr>) 5 demoWorld)
       = DetailsError ''connection lost''"
proof -
  have f: "dbFault demoEnv PaymentFindFirst = None" by (simp add: demoEnv_def)
  have n: "find (\<lambda>p. p_orderId p = 5) (payments demoWorld) = None"
    by (simp add: demo_defs)
  have b: "\<forall>p \<in> set (payments demoWorld). p_orderId p \<noteq> 5" by (simp add: demo_defs)
  have t: "fst (getPaymentDetails (demoEnv\<lparr>dbFault := \<lambda>op. Some (JsError ''connection lost'')\<rparr>) 5 demoWorld)
       = DetailsError ''connection lost''"
    by (simp add: getPaymentDetails_def payment_findFirst_def errorMessage_def)
  from getPaymentDetails_null_is_success[of demoEnv 5 demoWorld]
  show ?thesis using f n b t by simp
qed

section \<open>What each operation can write\<close>

lemma updateFirst_keeps_other:
  "find P xs = Some x \<Longrightarrow> q \<in> set xs \<Longrightarrow> q \<noteq> x \<Longrightarrow> q \<in> set (updateFirst P f xs)"
  by (induction xs) (auto split: if_splits)

lemma set_updateFirst_cases:
  "q \<in> set (updateFirst P f xs) \<Longrightarrow> q \<in> set xs \<or> (\<exists>x. find P xs = Some x \<and> q = f x)"
  by (induction xs) (auto split: if_splits)

text \<open>What a run of \<open>processPayment\<close> can do to the payments, on every path.\<close>

lemma processPayment_payments_effect:
  "payments (snd (processPayment env d w)) = payments w \<or>
   (\<exists>found. find (paymentWhere d) (payments w) = Some found \<and>
      payments (snd (processPayment env d w)) =
        updateFirst (\<lambda>p. p_id p = p_id found) (paymentData env d found) (payments w))"
proof -
  obtain t w' where t: "processPayment_try env d w = (t, w')"
    by (cases "processPayment_try env d w")
  have body: "payments w' = payments w \<or>
   (\<exists>found. find (paymentWhere d) (payments w) = Some found \<and>
      payments w' = updateFirst (\<lambda>p. p_id p = p_id found) (paymentData env d found) (payments w))"
  proof (cases "dbFault env PaymentFindFirst")
    case (Some e)
    with t show ?thesis by (auto simp: processPayment_try_def payment_findFirst_def)
  next
    case None
    show ?thesis
    proof (cases "find (paymentWhere d) (payments w)")
      case nf: None
      with None t show ?thesis by (auto simp: processPayment_try_def payment_findFirst_def)
    next
      case (Some found)
      obtain r2 w2 where pu: "payment_update env (p_id found) (paymentData env d found) w = (r2, w2)"
        by (cases "payment_update env (p_id found) (paymentData env d found) w")
      from payment_update_cases[OF pu]
      have p2: "payments w2 = payments w \<or> payments w2 =
          updateFirst (\<lambda>p. p_id p = p_id found) (paymentData env d found) (payments w)"
        by auto
      show ?thesis
      proof (cases r2)
        case (Inl e)
        with None Some pu t have "w' = w2"
          by (auto simp: processPayment_try_def payment_findFirst_def)
        with p2 Some show ?thesis by auto
      next
        case (Inr up)
        obtain r3 w3 where ou: "order_update env (pp_orderId d)
              (\<lambda>r. r\<lparr>o_status := orderStatusOf env d\<rparr>) w2 = (r3, w3)"
          by (cases "order_update env (pp_orderId d) (\<lambda>r. r\<lparr>o_status := orderStatusOf env d\<rparr>) w2")
        from order_update_effect[OF ou] have p3: "payments w3 = payments w2" by simp
        have "payments w' = payments w3"
        proof (cases r3)
          case l: (Inl e)
          with None Some pu Inr ou t show ?thesis
            by (auto simp: processPayment_try_def payment_findFirst_def)
        next
          case r: (Inr uo)
          obtain r4 w4 where ds: "decrementStock env 0 (snd uo) w3 = (r4, w4)"
            by (cases "decrementStock env 0 (snd uo) w3")
          from decrementStock_preserves[OF ds] have p4: "payments w4 = payments w3" by simp
          from None Some pu Inr ou r ds t p4 show ?thesis
            by (cases r4; cases "paymentStatusOf env d = ''COMPLETED''")
               (auto simp: processPayment_try_def payment_findFirst_def Let_def shipmentStep_fields)
        qed
        with p3 p2 Some show ?thesis by auto
      qed
    qed
  qed
  show ?thesis
    using t body by (cases t) (auto simp: processPayment_def consoleLine_fields)
qed

lemma refundPayment_effect:
  assumes run: "refundPayment env i a w = (res, w')"
  shows "orders w' = orders w \<or>
           (\<exists>found. find (\<lambda>p. p_id p = i) (payments w) = Some found \<and> res = RefundDone ''Payment refunded successfully'' \<and>
              orders w' = updateFirst (\<lambda>r. o_id r = p_orderId found) (\<lambda>r. r\<lparr>o_status := ''REFUNDED''\<rparr>) (orders w))"
    and "products w' = products w"
    and "shipmentCalls w' = shipmentCalls w"
    and "orderItems w' = orderItems w"
    and "payments w' = payments w \<or>
           (\<exists>found. find (\<lambda>p. p_id p = i) (payments w) = Some found \<and> p_status found = ''COMPLETED'' \<and>
              payments w' = updateFirst (\<lambda>p. p_id p = i) (refundData env a found) (payments w))"
    and "(\<exists>m. res = RefundDone m) \<longrightarrow>
           (\<exists>found. find (\<lambda>p. p_id p = i) (payments w) = Some found \<and> p_status found = ''COMPLETED'' \<and>
              payments w' = updateFirst (\<lambda>p. p_id p = i) (refundData env a found) (payments w))"
  using run
  by (auto simp: refundPayment_def refundPayment_try_def payment_findUnique_def
      payment_update_def order_update_def consoleLine_def
      split: option.splits if_splits)

lemma refundPayment_not_completed:
  assumes "dbFault env PaymentFindUnique = None"
      and "find (\<lambda>p. p_id p = i) (payments w) = Some found"
      and "p_status found \<noteq> ''COMPLETED''"
  shows "refundPayment env i a w = (RefundError ''Payment is not completed'', w)"
  using assms by (simp add: refundPayment_def refundPayment_try_def payment_findUnique_def)

lemma createPaymentOrder_effect:
  assumes run: "createPaymentOrder env c w = (res, w')"
  shows "orders w' = orders w" and "products w' = products w"
    and "shipmentCalls w' = shipmentCalls w"
    and "payments w' = payments w \<or>
          (\<exists>p. payments w' = payments w @ [p] \<and> p_status p = ''PENDING'' \<and> p_paidAt p = None)"
  using run
  by (auto simp: createPaymentOrder_def createPaymentOrder_try_def order_findUnique_def
      payment_create_def newPayment_def consoleLine_def Let_def
      split: option.splits razorpay_result.splits)

section \<open>paidAt and the status\<close>

lemma paymentData_consistent:
  "(p_paidAt (paymentData env d found row) \<noteq> None)
     = (p_status (paymentData env d found row) = ''COMPLETED'')"
  "p_status (paymentData env d found row) \<noteq> ''REFUNDED''"
  by (simp_all add: paymentData_def paymentStatusOf_def)

lemma refundPayment_ok:
  assumes "dbFault env PaymentFindUnique = None" and "dbFault env PaymentUpdate = None"
      and "dbFault env OrderUpdate = None"
      and "find (\<lambda>p. p_id p = i) (payments w) = Some found"
      and "p_status found = ''COMPLETED''"
      and "find (\<lambda>r. o_id r = p_orderId found) (orders w) = Some ord"
  shows "refundPayment env i a w =
           (RefundDone ''Payment refunded successfully'',
            w\<lparr>payments := updateFirst (\<lambda>p. p_id p = i) (refundData env a found) (payments w),
              orders := updateFirst (\<lambda>r. o_id r = p_orderId found)
                          (\<lambda>r. r\<lparr>o_status := ''REFUNDED''\<rparr>) (orders w)\<rparr>)"
  using assms
  by (simp add: refundPayment_def refundPayment_try_def payment_findUnique_def
      payment_update_def order_update_def)

lemma refund_row:
  assumes "find (\<lambda>p. p_id p = i) (payments w) = Some found"
      and "payments w' = updateFirst (\<lambda>p. p_id p = i) (refundData env a found) (payments w)"
  shows "paymentById w' i = Some (refundData env a found found)"
proof -
  have keep: "\<And>x. p_id x = i \<Longrightarrow> p_id (refundData env a found x) = i"
    by (simp add: refundData_def)
  show ?thesis
    unfolding paymentById_def assms(2)
    using find_updateFirst[of "\<lambda>p. p_id p = i" "refundData env a found" "payments w", OF keep]
          assms(1)
    by simp
qed

lemma processPayment_keeps_paidAtIffCompleted:
  assumes "paidAtIffCompleted w"
  shows "paidAtIffCompleted (snd (processPayment env d w))"
proof -
  from processPayment_payments_effect[of env d w] show ?thesis
  proof
    assume "payments (snd (processPayment env d w)) = payments w"
    with assms show ?thesis by (simp add: paidAtIffCompleted_def)
  next
    assume "\<exists>found. find (paymentWhere d) (payments w) = Some found \<and>
      payments (snd (processPayment env d w)) =
        updateFirst (\<lambda>p. p_id p = p_id found) (paymentData env d found) (payments w)"
    then obtain found where pw: "payments (snd (processPayment env d w)) =
        updateFirst (\<lambda>p. p_id p = p_id found) (paymentData env d found) (payments w)" by auto
    show ?thesis
      unfolding paidAtIffCompleted_def pw
    proof
      fix q assume "q \<in> set (updateFirst (\<lambda>p. p_id p = p_id found) (paymentData env d found) (payments w))"
      from set_updateFirst_cases[OF this]
      show "(p_paidAt q \<noteq> None) = (p_status q = ''COMPLETED'')"
        using assms paymentData_consistent(1)[of env d found]
        by (auto simp: paidAtIffCompleted_def)
    qed
  qed
qed

lemma processPayment_keeps_paidAtIffPaid:
  assumes "paidAtIffPaid w"
  shows "paidAtIffPaid (snd (processPayment env d w))"
proof -
  from processPayment_payments_effect[of env d w] show ?thesis
  proof
    assume "payments (snd (processPayment env d w)) = payments w"
    with assms show ?thesis by (simp add: paidAtIffPaid_def)
  next
    assume "\<exists>found. find (paymentWhere d) (payments w) = Some found \<and>
      payments (snd (processPayment env d w)) =
        updateFirst (\<lambda>p. p_id p = p_id found) (paymentData env d found) (payments w)"
    then obtain found where pw: "payments (snd (processPayment env d w)) =
        updateFirst (\<lambda>p. p_id p = p_id found) (paymentData env d found) (payments w)" by auto
    show ?thesis
      unfolding paidAtIffPaid_def pw
    proof
      fix q assume "q \<in> set (updateFirst (\<lambda>p. p_id p = p_id found) (paymentData env d found) (payments w))"
      from set_updateFirst_cases[OF this]
      show "(p_paidAt q \<noteq> None) = (p_status q = ''COMPLETED'' \<or> p_status q = ''REFUNDED'')"
        using assms paymentData_consistent[of env d found]
        by (auto simp: paidAtIffPaid_def)
    qed
  qed
qed

lemma createPaymentOrder_keeps:
  "paidAtIffCompleted w \<Longrightarrow> paidAtIffCompleted (snd (createPaymentOrder env c w))"
  "paidAtIffPaid w \<Longrightarrow> paidAtIffPaid (snd (createPaymentOrder env c w))"
  using createPaymentOrder_effect(4)[OF surjective_pairing, of env c w]
  by (auto simp: paidAtIffCompleted_def paidAtIffPaid_def)

lemma refundPayment_keeps_paidAtIffPaid:
  assumes "paidAtIffPaid w"
  shows "paidAtIffPaid (snd (refundPayment env i a w))"
proof -
  from refundPayment_effect(5)[OF surjective_pairing, of env i a w] show ?thesis
  proof
    assume "payments (snd (refundPayment env i a w)) = payments w"
    with assms show ?thesis by (simp add: paidAtIffPaid_def)
  next
    assume "\<exists>found. find (\<lambda>p. p_id p = i) (payments w) = Some found \<and> p_status found = ''COMPLETED'' \<and>
              payments (snd (refundPayment env i a w)) =
                updateFirst (\<lambda>p. p_id p = i) (refundData env a found) (payments w)"
    then obtain found where f: "find (\<lambda>p. p_id p = i) (payments w) = Some found"
      and c: "p_status found = ''COMPLETED''"
      and pw: "payments (snd (refundPayment env i a w)) =
                updateFirst (\<lambda>p. p_id p = i) (refundData env a found) (payments w)" by auto
    from find_in_set[OF f] assms c have pa: "p_paidAt found \<noteq> None"
      by (auto simp: paidAtIffPaid_def)
    show ?thesis
      unfolding paidAtIffPaid_def pw
    proof
      fix q assume "q \<in> set (updateFirst (\<lambda>p. p_id p = i) (refundData env a found) (payments w))"
      from set_updateFirst_cases[OF this]
      show "(p_paidAt q \<noteq> None) = (p_status q = ''COMPLETED'' \<or> p_status q = ''REFUNDED'')"
        using assms f pa by (auto simp: paidAtIffPaid_def refundData_def)
    qed
  qed
qed

text \<open>
  C6. \<open>createPaymentOrder\<close> and \<open>processPayment\<close> keep "\<open>paidAt\<close> is set iff the status
  is COMPLETED". \<open>refundPayment\<close> writes the status REFUNDED and leaves \<open>paidAt\<close> as it
  is, so what all three operations keep is "\<open>paidAt\<close> is set iff the status is COMPLETED
  or REFUNDED": a refunded payment keeps the time it was paid.
\<close>

theorem paidAt_after_operations:
  "(paidAtIffCompleted w \<longrightarrow>
      paidAtIffCompleted (snd (createPaymentOrder env c w))
    \<and> paidAtIffCompleted (snd (processPayment env d w)))
   \<and> (paidAtIffPaid w \<longrightarrow>
      paidAtIffPaid (snd (createPaymentOrder env c w))
    \<and> paidAtIffPaid (snd (processPayment env d w))
    \<and> paidAtIffPaid (snd (refundPayment env i a w)))
   \<and> ((\<exists>m. fst (refundPayment env i a w) = RefundDone m) \<longrightarrow>
      map_option p_status (paymentById (snd (refundPayment env i a w)) i) = Some ''REFUNDED''
    \<and> map_option p_paidAt (paymentById (snd (refundPayment env i a w)) i)
        = map_option p_paidAt (paymentById w i))"
proof -
  have third: "map_option p_status (paymentById (snd (refundPayment env i a w)) i) = Some ''REFUNDED''
    \<and> map_option p_paidAt (paymentById (snd (refundPayment env i a w)) i)
        = map_option p_paidAt (paymentById w i)"
    if "\<exists>m. fst (refundPayment env i a w) = RefundDone m"
  proof -
    from refundPayment_effect(6)[OF surjective_pairing, of env i a w] that
    obtain found where f: "find (\<lambda>p. p_id p = i) (payments w) = Some found"
      and pw: "payments (snd (refundPayment env i a w)) =
                updateFirst (\<lambda>p. p_id p = i) (refundData env a found) (payments w)" by auto
    from refund_row[OF f pw] f show ?thesis
      by (simp add: paymentById_def refundData_def)
  qed
  show ?thesis
    using third createPaymentOrder_keeps processPayment_keeps_paidAtIffCompleted
      processPayment_keeps_paidAtIffPaid refundPayment_keeps_paidAtIffPaid
    by blast
qed

lemma paidWorld_facts:
  "find (\<lambda>p. p_id p = 1) (payments paidWorld)
     = Some (demoPayment\<lparr>p_status := ''COMPLETED'', p_paidAt := Some 1700000000\<rparr>)"
  "find (\<lambda>r. o_id r = 1001) (orders paidWorld) = Some (demoOrder\<lparr>o_status := ''CONFIRMED''\<rparr>)"
  "paidAtIffCompleted paidWorld" "paidAtIffPaid paidWorld"
  by (simp_all add: paidWorld_def demo_defs paidAtIffCompleted_def paidAtIffPaid_def)

lemma paidWorld_refund:
  "refundPayment demoEnv 1 None paidWorld =
     (RefundDone ''Payment refunded successfully'',
      paidWorld\<lparr>payments := updateFirst (\<lambda>p. p_id p = 1)
          (refundData demoEnv None (demoPayment\<lparr>p_status := ''COMPLETED'', p_paidAt := Some 1700000000\<rparr>))
          (payments paidWorld),
        orders := updateFirst (\<lambda>r. o_id r = 1001) (\<lambda>r. r\<lparr>o_status := ''REFUNDED''\<rparr>) (orders paidWorld)\<rparr>)"
proof -
  have f: "dbFault demoEnv PaymentFindUnique = None" "dbFault demoEnv PaymentUpdate = None"
    "dbFault demoEnv OrderUpdate = None" by (simp_all add: demoEnv_def)
  have o: "p_orderId (demoPayment\<lparr>p_status := ''COMPLETED'', p_paidAt := Some 1700000000\<rparr>) = 1001"
    by (simp add: demoPayment_def)
  from refundPayment_ok[OF f paidWorld_facts(1) _ , of "demoOrder\<lparr>o_status := ''CONFIRMED''\<rparr>" None]
    paidWorld_facts(2) o
  show ?thesis by simp
qed

theorem paidAt_after_operations_witness:
  "paidAtIffCompleted demoWorld
   \<and> paidAtIffCompleted (snd (processPayment demoEnv demoData demoWorld))
   \<and> paidAtIffPaid paidWorld
   \<and> paidAtIffPaid (snd (refundPayment demoEnv 1 None paidWorld))
   \<and> fst (refundPayment demoEnv 1 None paidWorld) = RefundDone ''Payment refunded successfully''
   \<and> map_option p_paidAt (paymentById (snd (refundPayment demoEnv 1 None paidWorld)) 1)
       = Some (Some 1700000000)"
proof -
  have a: "paidAtIffCompleted demoWorld" by (simp add: demo_defs paidAtIffCompleted_def)
  have r: "fst (refundPayment demoEnv 1 None paidWorld) = RefundDone ''Payment refunded successfully''"
    unfolding paidWorld_refund by simp
  have p: "map_option p_paidAt (paymentById paidWorld 1) = Some (Some 1700000000)"
    unfolding paymentById_def paidWorld_facts(1) by simp
  from paidAt_after_operations[of demoWorld demoEnv demoCreate demoData 1 None]
       paidAt_after_operations[of paidWorld demoEnv demoCreate demoData 1 None]
  show ?thesis using a r p paidWorld_facts(4) by simp
qed

text \<open>
  Refunding the completed payment of the concrete shop leaves a REFUNDED payment with a
  \<open>paidAt\<close>.
\<close>

theorem paidAt_refund_counterexample:
  "paidAtIffCompleted paidWorld
   \<and> \<not> paidAtIffCompleted (snd (refundPayment demoEnv 1 None paidWorld))"
proof -
  have "payments (snd (refundPayment demoEnv 1 None paidWorld)) =
      [refundData demoEnv None (demoPayment\<lparr>p_status := ''COMPLETED'', p_paidAt := Some 1700000000\<rparr>)
         (demoPayment\<lparr>p_status := ''COMPLETED'', p_paidAt := Some 1700000000\<rparr>)]"
    unfolding paidWorld_refund by (simp add: paidWorld_def demo_defs)
  then have "\<not> paidAtIffCompleted (snd (refundPayment demoEnv 1 None paidWorld))"
    by (simp add: paidAtIffCompleted_def refundData_def)
  with paidWorld_facts(3) show ?thesis by simp
qed

section \<open>The status transitions\<close>

lemma refundedWorld_facts:
  "find (paymentWhere demoData) (payments refundedWorld)
     = Some (demoPayment\<lparr>p_status := ''REFUNDED'', p_paidAt := Some 1700000000\<rparr>)"
  "foreignKeys refundedWorld"
  "map_option p_status (paymentById refundedWorld 1) = Some ''REFUNDED''"
  by (simp_all add: refundedWorld_def demo_defs paymentWhere_def foreignKeys_def paymentById_def)

lemma paymentData_status:
  "p_status (paymentData env d found row) = ''COMPLETED''
   \<or> p_status (paymentData env d found row) = ''FAILED''"
  by (simp add: paymentData_def paymentStatusOf_def)

text \<open>
  C8. What the three operations do to \<open>Payment.status\<close>. \<open>refundPayment\<close> reports success
  only for a payment that was COMPLETED, and then it is REFUNDED; for a payment in any
  other status it returns a failure and changes no payment, order or product (exactly
  \<open>'Payment is not completed'\<close> and no change at all when the lookup completes); it never
  changes a payment that is not COMPLETED. \<open>createPaymentOrder\<close> changes no existing
  payment. \<open>processPayment\<close> writes only COMPLETED or FAILED, and it writes one of them
  to the payment it finds whatever the status of that payment was.
\<close>

theorem payment_status_transitions:
  assumes refund: "refundPayment env i a w = (res, w')"
      and process: "processPayment env d w = (pres, pw)"
      and create: "createPaymentOrder env c w = (cres, cw)"
  shows "((\<exists>m. res = RefundDone m) \<longrightarrow>
            map_option p_status (paymentById w i) = Some ''COMPLETED''
          \<and> map_option p_status (paymentById w' i) = Some ''REFUNDED'')
       \<and> (\<forall>found. paymentById w i = Some found \<and> p_status found \<noteq> ''COMPLETED'' \<longrightarrow>
            (\<exists>m. res = RefundError m) \<and> payments w' = payments w \<and> orders w' = orders w
          \<and> products w' = products w
          \<and> (dbFault env PaymentFindUnique = None \<longrightarrow>
                res = RefundError ''Payment is not completed'' \<and> w' = w))
       \<and> (\<forall>q \<in> set (payments w). p_status q \<noteq> ''COMPLETED'' \<longrightarrow> q \<in> set (payments w'))
       \<and> (\<forall>q \<in> set (payments w). q \<in> set (payments cw))
       \<and> (\<forall>q \<in> set (payments pw).
             q \<in> set (payments w) \<or> p_status q = ''COMPLETED'' \<or> p_status q = ''FAILED'')
       \<and> (\<forall>found. find (paymentWhere d) (payments w) = Some found \<and> foreignKeys w
             \<and> dbFault env PaymentFindFirst = None \<and> dbFault env PaymentUpdate = None
             \<and> dbFault env OrderUpdate = None \<longrightarrow>
             map_option p_status (paymentById pw (p_id found))
               = Some (if verifiedRazorpay env d then ''COMPLETED'' else ''FAILED''))"
proof -
  note e = refundPayment_effect[OF refund]
  have one: "map_option p_status (paymentById w i) = Some ''COMPLETED''
          \<and> map_option p_status (paymentById w' i) = Some ''REFUNDED''"
    if "\<exists>m. res = RefundDone m"
  proof -
    from e(6) that obtain found where f: "find (\<lambda>p. p_id p = i) (payments w) = Some found"
      and c: "p_status found = ''COMPLETED''"
      and pw: "payments w' = updateFirst (\<lambda>p. p_id p = i) (refundData env a found) (payments w)"
      by auto
    from refund_row[OF f pw] f c show ?thesis
      by (simp add: paymentById_def refundData_def)
  qed
  have two: "(\<exists>m. res = RefundError m) \<and> payments w' = payments w \<and> orders w' = orders w
          \<and> products w' = products w
          \<and> (dbFault env PaymentFindUnique = None \<longrightarrow>
                res = RefundError ''Payment is not completed'' \<and> w' = w)"
    if f: "paymentById w i = Some found" and n: "p_status found \<noteq> ''COMPLETED''" for found
  proof -
    from f have f': "find (\<lambda>p. p_id p = i) (payments w) = Some found"
      by (simp add: paymentById_def)
    have a1: "payments w' = payments w" using e(5) f' n by auto
    have a2: "orders w' = orders w" using e(1) e(6) f' n by auto
    have a3: "\<exists>m. res = RefundError m" using e(6) f' n by (cases res) auto
    have a4: "res = RefundError ''Payment is not completed'' \<and> w' = w"
      if "dbFault env PaymentFindUnique = None"
      using refundPayment_not_completed[OF that f' n, of a] refund by simp
    from a1 a2 a3 a4 e(2) show ?thesis by blast
  qed
  have three: "q \<in> set (payments w')" if q: "q \<in> set (payments w)" and n: "p_status q \<noteq> ''COMPLETED''" for q
  proof -
    from e(5) show ?thesis
    proof
      assume "payments w' = payments w" with q show ?thesis by simp
    next
      assume "\<exists>found. find (\<lambda>p. p_id p = i) (payments w) = Some found \<and> p_status found = ''COMPLETED'' \<and>
              payments w' = updateFirst (\<lambda>p. p_id p = i) (refundData env a found) (payments w)"
      then obtain found where f: "find (\<lambda>p. p_id p = i) (payments w) = Some found"
        and c: "p_status found = ''COMPLETED''"
        and pw: "payments w' = updateFirst (\<lambda>p. p_id p = i) (refundData env a found) (payments w)"
        by auto
      from n c have "q \<noteq> found" by auto
      from updateFirst_keeps_other[OF f q this] pw show ?thesis by simp
    qed
  qed
  have four: "q \<in> set (payments cw)" if "q \<in> set (payments w)" for q
    using createPaymentOrder_effect(4)[OF create] that by auto
  have five: "q \<in> set (payments w) \<or> p_status q = ''COMPLETED'' \<or> p_status q = ''FAILED''"
    if q: "q \<in> set (payments pw)" for q
  proof -
    from processPayment_payments_effect[of env d w] process
    have "payments pw = payments w \<or>
      (\<exists>found. payments pw = updateFirst (\<lambda>p. p_id p = p_id found) (paymentData env d found) (payments w))"
      by auto
    then show ?thesis
    proof
      assume "payments pw = payments w" with q show ?thesis by simp
    next
      assume "\<exists>found. payments pw = updateFirst (\<lambda>p. p_id p = p_id found) (paymentData env d found) (payments w)"
      then obtain found where "payments pw = updateFirst (\<lambda>p. p_id p = p_id found) (paymentData env d found) (payments w)"
        by auto
      with q set_updateFirst_cases[of q "\<lambda>p. p_id p = p_id found" "paymentData env d found" "payments w"]
      show ?thesis using paymentData_status[of env d found] by auto
    qed
  qed
  have six: "map_option p_status (paymentById pw (p_id found))
               = Some (if verifiedRazorpay env d then ''COMPLETED'' else ''FAILED'')"
    if b: "find (paymentWhere d) (payments w) = Some found \<and> foreignKeys w
             \<and> dbFault env PaymentFindFirst = None \<and> dbFault env PaymentUpdate = None
             \<and> dbFault env OrderUpdate = None" for found
  proof -
    from b have found: "find (paymentWhere d) (payments w) = Some found" and fk: "foreignKeys w"
      by auto
    obtain ord where ord: "find (\<lambda>r. o_id r = pp_orderId d) (orders w) = Some ord"
      using found_order[OF fk found] by auto
    from b have "payments (snd (processPayment env d w)) = payments (afterWrites env d found w)
         \<and> orders (snd (processPayment env d w)) = orders (afterWrites env d found w)"
      using processPayment_after_writes[OF _ found _ _ ord] by blast
    with process have p: "payments pw = payments (afterWrites env d found w)"
      and o: "orders pw = orders (afterWrites env d found w)" by auto
    show ?thesis
      unfolding statuses_after_writes(1)[OF found fk p o]
      by (simp add: paymentStatusOf_def isValidPayment_iff)
  qed
  from one have c1: "(\<exists>m. res = RefundDone m) \<longrightarrow>
            map_option p_status (paymentById w i) = Some ''COMPLETED''
          \<and> map_option p_status (paymentById w' i) = Some ''REFUNDED''" by blast
  from two have c2: "\<forall>found. paymentById w i = Some found \<and> p_status found \<noteq> ''COMPLETED'' \<longrightarrow>
            (\<exists>m. res = RefundError m) \<and> payments w' = payments w \<and> orders w' = orders w
          \<and> products w' = products w
          \<and> (dbFault env PaymentFindUnique = None \<longrightarrow>
                res = RefundError ''Payment is not completed'' \<and> w' = w)" by blast
  from three have c3: "\<forall>q \<in> set (payments w). p_status q \<noteq> ''COMPLETED'' \<longrightarrow> q \<in> set (payments w')"
    by blast
  from four have c4: "\<forall>q \<in> set (payments w). q \<in> set (payments cw)" by blast
  from five have c5: "\<forall>q \<in> set (payments pw).
             q \<in> set (payments w) \<or> p_status q = ''COMPLETED'' \<or> p_status q = ''FAILED''"
    by blast
  from six have c6: "\<forall>found. find (paymentWhere d) (payments w) = Some found \<and> foreignKeys w
             \<and> dbFault env PaymentFindFirst = None \<and> dbFault env PaymentUpdate = None
             \<and> dbFault env OrderUpdate = None \<longrightarrow>
             map_option p_status (paymentById pw (p_id found))
               = Some (if verifiedRazorpay env d then ''COMPLETED'' else ''FAILED'')" by blast
  show ?thesis by (intro conjI c1 c2 c3 c4 c5 c6)
qed

theorem payment_status_transitions_witness:
  "fst (refundPayment demoEnv 1 None paidWorld) = RefundDone ''Payment refunded successfully''
   \<and> map_option p_status (paymentById paidWorld 1) = Some ''COMPLETED''
   \<and> map_option p_status (paymentById (snd (refundPayment demoEnv 1 None paidWorld)) 1)
       = Some ''REFUNDED''
   \<and> find (paymentWhere demoData) (payments refundedWorld)
       = Some (demoPayment\<lparr>p_status := ''REFUNDED'', p_paidAt := Some 1700000000\<rparr>)
   \<and> foreignKeys refundedWorld \<and> noDbFault demoEnv
   \<and> refundPayment demoEnv 1 None refundedWorld
       = (RefundError ''Payment is not completed'', refundedWorld)"
proof -
  have r: "fst (refundPayment demoEnv 1 None paidWorld) = RefundDone ''Payment refunded successfully''"
    unfolding paidWorld_refund by simp
  have f: "dbFault demoEnv PaymentFindUnique = None" by (simp add: demoEnv_def)
  have pb: "paymentById refundedWorld 1
      = Some (demoPayment\<lparr>p_status := ''REFUNDED'', p_paidAt := Some 1700000000\<rparr>)"
    unfolding paymentById_def by (simp add: refundedWorld_def demo_defs)
  have ns: "p_status (demoPayment\<lparr>p_status := ''REFUNDED'', p_paidAt := Some 1700000000\<rparr>) \<noteq> ''COMPLETED''"
    by simp
  note t1 = payment_status_transitions[OF surjective_pairing surjective_pairing surjective_pairing,
         where env = demoEnv and i = 1 and a = None and w = paidWorld and d = demoData
           and c = demoCreate, THEN conjunct1]
  note t2 = payment_status_transitions[OF surjective_pairing surjective_pairing surjective_pairing,
         where env = demoEnv and i = 1 and a = None and w = refundedWorld and d = demoData
           and c = demoCreate, THEN conjunct2, THEN conjunct1, THEN spec, THEN mp, OF conjI,
         OF pb ns]
  from t1 r
  have a: "map_option p_status (paymentById paidWorld 1) = Some ''COMPLETED''
      \<and> map_option p_status (paymentById (snd (refundPayment demoEnv 1 None paidWorld)) 1)
       = Some ''REFUNDED''"
    by blast
  from t2 f
  have "fst (refundPayment demoEnv 1 None refundedWorld) = RefundError ''Payment is not completed''
      \<and> snd (refundPayment demoEnv 1 None refundedWorld) = refundedWorld"
    by blast
  then have b: "refundPayment demoEnv 1 None refundedWorld
       = (RefundError ''Payment is not completed'', refundedWorld)"
    by (simp add: prod_eq_iff)
  from a b r refundedWorld_facts(1,2) demo_nofault show ?thesis by blast
qed

text \<open>
  A verified \<open>processPayment\<close> on the refunded payment of the concrete shop makes it
  COMPLETED again.
\<close>

theorem payment_status_counterexample:
  "map_option p_status (paymentById refundedWorld 1) = Some ''REFUNDED''
   \<and> map_option p_status (paymentById (snd (processPayment demoEnv demoData refundedWorld)) 1)
       = Some ''COMPLETED''"
proof -
  have f: "dbFault demoEnv PaymentFindFirst = None" "dbFault demoEnv PaymentUpdate = None"
    "dbFault demoEnv OrderUpdate = None" by (simp_all add: demoEnv_def)
  have iv: "isValidPayment demoEnv demoData"
    using demo_verified by (simp add: isValidPayment_iff)
  have id: "p_id (demoPayment\<lparr>p_status := ''REFUNDED'', p_paidAt := Some 1700000000\<rparr>) = 1"
    by (simp add: demoPayment_def)
  obtain ord where ord: "find (\<lambda>r. o_id r = pp_orderId demoData) (orders refundedWorld) = Some ord"
    using found_order[OF refundedWorld_facts(2) refundedWorld_facts(1)] by auto
  from processPayment_after_writes[OF f(1) refundedWorld_facts(1) f(2) f(3) ord]
  have p: "payments (snd (processPayment demoEnv demoData refundedWorld)) =
       payments (afterWrites demoEnv demoData
          (demoPayment\<lparr>p_status := ''REFUNDED'', p_paidAt := Some 1700000000\<rparr>) refundedWorld)"
    and o: "orders (snd (processPayment demoEnv demoData refundedWorld)) =
       orders (afterWrites demoEnv demoData
          (demoPayment\<lparr>p_status := ''REFUNDED'', p_paidAt := Some 1700000000\<rparr>) refundedWorld)"
    by auto
  from statuses_after_writes(1)[OF refundedWorld_facts(1) refundedWorld_facts(2) p o] iv
  have "map_option p_status (paymentById (snd (processPayment demoEnv demoData refundedWorld)) 1)
       = Some ''COMPLETED''"
    unfolding id by (simp add: paymentStatusOf_def)
  with refundedWorld_facts(3) show ?thesis by simp
qed

section \<open>The courier client never throws\<close>























lemma truthy_message: "truthy (JStr s) \<Longrightarrow> nonEmptyMessage (JStr s)"
  by (simp add: nonEmptyMessage_def)







end
